theory Spec2Isabelle
  imports Main "HOL-Library.List_Lexorder" "HOL-Library.Multiset" "HOL-Library.AList"
    "HOL-Library.Code_Target_Nat"
begin

section \<open>repoStruct2Markdown: strings\<close>

text \<open>
  A Python string is the list of its Unicode code points, a code point a natural number;
  strings compare as in Python, lexicographically by code point. ASCII text is written
  with \<open>ascii\<close>.

  Two functions of Python's standard library are parameters of the model, fields of a
  \<open>pylib\<close>: \<open>str.lower\<close>, which follows the Unicode tables and the context of a letter, and
  \<open>fnmatch.fnmatchcase\<close>. What is proved holds for every such pair of functions; where a
  property of the library is needed it is a stated hypothesis.
\<close>

type_synonym pystr = "nat list"

abbreviation ch :: "char \<Rightarrow> nat" where
  "ch c \<equiv> of_char c"

definition ascii :: "string \<Rightarrow> pystr" where
  "ascii s = map of_char s"

record pylib =
  py_lower :: "pystr \<Rightarrow> pystr"
  py_fnmatchcase :: "pystr \<Rightarrow> pystr \<Rightarrow> bool"

definition is_upper :: "nat \<Rightarrow> bool" where
  "is_upper c \<longleftrightarrow> ch CHR ''A'' \<le> c \<and> c \<le> ch CHR ''Z''"

definition is_lower :: "nat \<Rightarrow> bool" where
  "is_lower c \<longleftrightarrow> ch CHR ''a'' \<le> c \<and> c \<le> ch CHR ''z''"

definition is_digit :: "nat \<Rightarrow> bool" where
  "is_digit c \<longleftrightarrow> ch CHR ''0'' \<le> c \<and> c \<le> ch CHR ''9''"

text \<open>\<open>re.sub(r'[^a-zA-Z0-9]', '-', s)\<close>: every character outside the class becomes a dash.\<close>

definition sub_non_alnum :: "pystr \<Rightarrow> pystr" where
  "sub_non_alnum s =
     map (\<lambda>c. if is_lower c \<or> is_upper c \<or> is_digit c then c else ch CHR ''-'') s"

text \<open>\<open>re.sub(r'-+', '-', s)\<close>: every maximal run of dashes becomes one dash.\<close>

fun sub_dashes :: "pystr \<Rightarrow> pystr" where
  "sub_dashes (a # b # cs) =
     (if a = ch CHR ''-'' \<and> b = ch CHR ''-'' then sub_dashes (b # cs)
      else a # sub_dashes (b # cs))"
| "sub_dashes cs = cs"

text \<open>\<open>s.strip('-')\<close>\<close>

definition strip_dashes :: "pystr \<Rightarrow> pystr" where
  "strip_dashes s =
     rev (dropWhile (\<lambda>c. c = ch CHR ''-'') (rev (dropWhile (\<lambda>c. c = ch CHR ''-'') s)))"

text \<open>\<open>create_anchor_id\<close>, lines 193 to 200 of the source.\<close>

definition create_anchor_id :: "pylib \<Rightarrow> pystr \<Rightarrow> pystr" where
  "create_anchor_id L filename =
     strip_dashes (sub_dashes (sub_non_alnum (py_lower L filename)))"

text \<open>
  The slug as the specification words it, each step defined on its own: lowercase; replace
  every character outside \<open>[a-z0-9]\<close> with a dash; collapse consecutive dashes to one (a dash
  stays and the dashes that follow it go); strip the dashes at both ends (drop the leading
  run, then cut off as many characters as the trailing run has).
\<close>

definition spec_replace :: "pystr \<Rightarrow> pystr" where
  "spec_replace s = map (\<lambda>c. if is_lower c \<or> is_digit c then c else ch CHR ''-'') s"

lemma length_dropWhile_less: "length (dropWhile P xs) < Suc (length xs)"
  by (simp add: length_dropWhile_le less_Suc_eq_le)

function spec_collapse :: "pystr \<Rightarrow> pystr" where
  "spec_collapse [] = []"
| "spec_collapse (c # cs) =
     (if c = ch CHR ''-'' then c # spec_collapse (dropWhile (\<lambda>x. x = ch CHR ''-'') cs)
      else c # spec_collapse cs)"
  by pat_completeness auto
termination
  by (relation "measure length") (auto simp: length_dropWhile_less)

definition spec_strip :: "pystr \<Rightarrow> pystr" where
  "spec_strip s =
     (let t = dropWhile (\<lambda>c. c = ch CHR ''-'') s
      in take (length t - length (takeWhile (\<lambda>c. c = ch CHR ''-'') (rev t))) t)"

definition spec_anchor_id :: "pylib \<Rightarrow> pystr \<Rightarrow> pystr" where
  "spec_anchor_id L s = spec_strip (spec_collapse (spec_replace (py_lower L s)))"

section \<open>Strings: splitting, joining, decimal numerals\<close>

text \<open>\<open>sep.join(xs)\<close>\<close>

fun join :: "pystr \<Rightarrow> pystr list \<Rightarrow> pystr" where
  "join sep [] = []"
| "join sep [x] = x"
| "join sep (x # y # ys) = x @ sep @ join sep (y # ys)"

text \<open>\<open>s.split(c)\<close> for a separator of one character: never the empty list.\<close>

fun split_char :: "nat \<Rightarrow> pystr \<Rightarrow> pystr list" where
  "split_char sep [] = [[]]"
| "split_char sep (c # cs) =
     (if c = sep then [] # split_char sep cs
      else (case split_char sep cs of [] \<Rightarrow> [[c]] | l # ls \<Rightarrow> (c # l) # ls))"

text \<open>
  \<open>str.isspace\<close> of one character, the whitespace \<open>str.rstrip()\<close> trims: U+0009 to U+000D,
  U+001C to U+0020, U+0085, U+00A0, U+1680, U+2000 to U+200A, U+2028, U+2029, U+202F, U+205F
  and U+3000.
\<close>

definition is_space :: "nat \<Rightarrow> bool" where
  "is_space c \<longleftrightarrow>
     (0x09 \<le> c \<and> c \<le> 0x0D) \<or> (0x1C \<le> c \<and> c \<le> 0x20) \<or> c = 0x85 \<or> c = 0xA0 \<or>
     c = 0x1680 \<or> (0x2000 \<le> c \<and> c \<le> 0x200A) \<or> c = 0x2028 \<or> c = 0x2029 \<or>
     c = 0x202F \<or> c = 0x205F \<or> c = 0x3000"

text \<open>\<open>s.rstrip()\<close>\<close>

definition rstrip :: "pystr \<Rightarrow> pystr" where
  "rstrip s = rev (dropWhile is_space (rev s))"

text \<open>\<open>str(i)\<close> for a natural number.\<close>

definition digit_char :: "nat \<Rightarrow> nat" where
  "digit_char d = ch CHR ''0'' + d"

fun str_nat :: "nat \<Rightarrow> pystr" where
  "str_nat n = (if n < 10 then [digit_char n] else str_nat (n div 10) @ [digit_char (n mod 10)])"

declare str_nat.simps [simp del]

text \<open>\<open>enumerate(xs, i)\<close>\<close>

fun enumerate_from :: "nat \<Rightarrow> 'a list \<Rightarrow> (nat \<times> 'a) list" where
  "enumerate_from i [] = []"
| "enumerate_from i (x # xs) = (i, x) # enumerate_from (Suc i) xs"

text \<open>
  Lines 162 to 169 of the source: the text of a file, trimmed at the end, split at newlines,
  each line prefixed with its number, and joined again.
\<close>

definition content_lines :: "pystr \<Rightarrow> pystr list" where
  "content_lines content = split_char (ch CHR 0x0A) (rstrip content)"

definition numbered_lines :: "pystr list \<Rightarrow> pystr list" where
  "numbered_lines ls = map (\<lambda>(i, line). str_nat i @ ascii '': '' @ line) (enumerate_from 1 ls)"

definition numbered_block :: "pystr \<Rightarrow> pystr" where
  "numbered_block content = join [ch CHR 0x0A] (numbered_lines (content_lines content))"

section \<open>Paths and pattern matching\<close>

text \<open>
  A path is the list of its parts as \<open>pathlib\<close> keeps them for a POSIX path: the root
  (\<open>/\<close> or \<open>//\<close>) first when the path is absolute, then the names.
\<close>

type_synonym path = "pystr list"

definition path_root :: "path \<Rightarrow> pystr" where
  "path_root p =
     (case p of [] \<Rightarrow> [] | r # _ \<Rightarrow> if r = ascii ''/'' \<or> r = ascii ''//'' then r else [])"

text \<open>\<open>PurePath.name\<close>: the last part, empty for the root and for the empty path.\<close>

definition path_name :: "path \<Rightarrow> pystr" where
  "path_name p = (if length p = (if path_root p = [] then 0 else 1) then [] else last p)"

text \<open>\<open>str(path)\<close>\<close>

definition path_str :: "path \<Rightarrow> pystr" where
  "path_str p =
     (if p = [] then ascii ''.''
      else if path_root p = [] then join (ascii ''/'') p
      else path_root p @ join (ascii ''/'') (tl p))"

text \<open>\<open>item.relative_to(root)\<close> for an item below the root.\<close>

definition relative_to :: "path \<Rightarrow> path \<Rightarrow> path" where
  "relative_to item root = drop (length root) item"

text \<open>
  \<open>parse_parts\<close> of a POSIX pattern: the root, and the parts with the root in front; empty
  components and \<open>.\<close> are dropped.
\<close>

definition parse_parts :: "pystr \<Rightarrow> pystr \<times> pystr list" where
  "parse_parts p =
     (let stripped = dropWhile (\<lambda>c. c = ch CHR ''/'') p;
          k = length p - length stripped;
          root = (if k = 0 then [] else if k = 2 then ascii ''//'' else ascii ''/'');
          rel = filter (\<lambda>x. x \<noteq> [] \<and> x \<noteq> ascii ''.'') (split_char (ch CHR ''/'') stripped)
      in (root, (if root = [] then [] else [root]) @ rel))"

text \<open>
  \<open>PurePath.match\<close> (CPython 3.11, POSIX): the pattern is matched part by part from the
  right with \<open>fnmatchcase\<close>; a rooted pattern must cover the whole path. The library raises
  \<open>ValueError\<close> for a pattern without parts; the model answers \<open>False\<close> there, and a pattern
  that holds a \<open>*\<close> always has a part (\<open>star_pattern_has_parts\<close>).
\<close>

definition path_match :: "pylib \<Rightarrow> path \<Rightarrow> pystr \<Rightarrow> bool" where
  "path_match L parts path_pattern =
     (let (root, pat_parts) = parse_parts path_pattern in
      if pat_parts = [] then False
      else if root \<noteq> [] \<and> root \<noteq> path_root parts then False
      else if root \<noteq> [] then
        length pat_parts = length parts \<and>
        list_all (\<lambda>(part, pat). py_fnmatchcase L part pat)
          (zip (rev parts) (rev (tl pat_parts)))
      else
        \<not> length pat_parts > length parts \<and>
        list_all (\<lambda>(part, pat). py_fnmatchcase L part pat) (zip (rev parts) (rev pat_parts)))"

section \<open>The ignore filter\<close>

record config =
  ignore_patterns :: "pystr list option"
  ignore_hidden :: bool
  include_file_contents :: bool

text \<open>\<open>re.compile(r'^\..*').match(name)\<close>: the name starts with a dot.\<close>

definition hidden_match :: "pystr \<Rightarrow> bool" where
  "hidden_match name = (case name of [] \<Rightarrow> False | c # _ \<Rightarrow> c = ch CHR ''.'')"

fun patterns_loop :: "pylib \<Rightarrow> path \<Rightarrow> pystr list \<Rightarrow> bool" where
  "patterns_loop L item [] = False"
| "patterns_loop L item (pattern # rest) =
     (if pattern = path_name item then True
      else if ch CHR ''*'' \<in> set pattern \<and> path_match L item pattern then True
      else patterns_loop L item rest)"

text \<open>\<open>_should_ignore\<close>, lines 65 to 83 of the source.\<close>

definition should_ignore :: "pylib \<Rightarrow> config \<Rightarrow> path \<Rightarrow> bool" where
  "should_ignore L cfg item =
     (if ignore_hidden cfg \<and> hidden_match (path_name item) then True
      else (case ignore_patterns cfg of
              None \<Rightarrow> False
            | Some patterns \<Rightarrow> patterns_loop L item patterns))"

text \<open>
  The filter as the specification words it, on the name of the entry: hidden, or a pattern
  equal to the name, or a pattern with a wildcard character that matches the name as a
  shell glob.
\<close>

definition has_wildcard :: "pystr \<Rightarrow> bool" where
  "has_wildcard pattern \<longleftrightarrow>
     ch CHR ''*'' \<in> set pattern \<or> ch CHR ''?'' \<in> set pattern \<or> ch CHR ''['' \<in> set pattern"

definition spec_should_ignore :: "pylib \<Rightarrow> config \<Rightarrow> pystr \<Rightarrow> bool" where
  "spec_should_ignore L cfg name \<longleftrightarrow>
     (ignore_hidden cfg \<and> hidden_match name) \<or>
     (\<exists>pattern \<in> set (case ignore_patterns cfg of None \<Rightarrow> [] | Some ps \<Rightarrow> ps).
        pattern = name \<or> (has_wildcard pattern \<and> py_fnmatchcase L name pattern))"

section \<open>The language table\<close>

text \<open>\<open>name.rfind(c)\<close>, \<open>None\<close> for Python's \<open>-1\<close>.\<close>

definition rfind :: "nat \<Rightarrow> pystr \<Rightarrow> nat option" where
  "rfind c s =
     (if c \<in> set s then Some (length s - 1 - length (takeWhile (\<lambda>x. x \<noteq> c) (rev s))) else None)"

text \<open>\<open>PurePath.suffix\<close>: the name from its last dot on, when that dot is neither first nor last.\<close>

definition name_suffix :: "pystr \<Rightarrow> pystr" where
  "name_suffix name =
     (case rfind (ch CHR ''.'') name of
        None \<Rightarrow> []
      | Some i \<Rightarrow> if 0 < i \<and> i < length name - 1 then drop i name else [])"

definition suffix :: "path \<Rightarrow> pystr" where
  "suffix p = name_suffix (path_name p)"

definition extension_map :: "(pystr \<times> pystr) list" where
  "extension_map =
     map (\<lambda>(k, v). (ascii k, ascii v))
       [(''.cpp'', ''cpp''), (''.c'', ''c''), (''.h'', ''cpp''), (''.hpp'', ''cpp''),
        (''.py'', ''python''), (''.js'', ''javascript''), (''.html'', ''html''),
        (''.css'', ''css''), (''.java'', ''java''), (''.md'', ''markdown''),
        (''.json'', ''json''), (''.xml'', ''xml''), (''.sql'', ''sql''), (''.sh'', ''bash''),
        (''.bat'', ''batch''), (''.ps1'', ''powershell''), (''.cs'', ''csharp''),
        (''.rb'', ''ruby''), (''.php'', ''php''), (''.pl'', ''perl''), (''.go'', ''go''),
        (''.rs'', ''rust''), (''.idl'', ''idl''), (''.yaml'', ''yaml'')]"

text \<open>\<open>determine_file_language\<close>, lines 204 to 248 of the source.\<close>

definition determine_file_language :: "pylib \<Rightarrow> path \<Rightarrow> pystr option" where
  "determine_file_language L file_path =
     map_of extension_map (py_lower L (suffix file_path))"

section \<open>The file system\<close>

text \<open>
  The directory tree under the root, as the traversal sees it. A file carries what
  \<open>read_text\<close> gives for it: the text, or the message of the exception raised. A directory
  lists its children in the order of \<open>iterdir\<close>; listing a \<open>DeniedDir\<close> raises
  \<open>PermissionError\<close>, listing a \<open>BrokenDir\<close> raises another \<open>OSError\<close>. \<open>Other\<close> is an entry
  that is neither a directory nor a regular file. \<open>StatDenied\<close> and \<open>StatBroken\<close> are entries
  whose \<open>stat\<close> fails with an error that \<open>is_dir()\<close> and \<open>is_file()\<close> raise again:
  \<open>PermissionError\<close> (the entry lies in a directory that may be listed but not searched) or
  another \<open>OSError\<close>.
\<close>

datatype entry =
    File pystr "pystr + pystr"
  | Dir pystr "entry list"
  | DeniedDir pystr
  | BrokenDir pystr
  | Other pystr
  | StatDenied pystr
  | StatBroken pystr

datatype error = PermissionError | OSError | AssertionError

fun entry_name :: "entry \<Rightarrow> pystr" where
  "entry_name (File n _) = n"
| "entry_name (Dir n _) = n"
| "entry_name (DeniedDir n) = n"
| "entry_name (BrokenDir n) = n"
| "entry_name (Other n) = n"
| "entry_name (StatDenied n) = n"
| "entry_name (StatBroken n) = n"

fun is_dir :: "entry \<Rightarrow> bool" where
  "is_dir (Dir _ _) = True"
| "is_dir (DeniedDir _) = True"
| "is_dir (BrokenDir _) = True"
| "is_dir _ = False"

fun is_file :: "entry \<Rightarrow> bool" where
  "is_file (File _ _) = True"
| "is_file _ = False"

text \<open>The error that \<open>item.is_dir()\<close> and \<open>item.is_file()\<close> raise, if any.\<close>

fun stat_error :: "entry \<Rightarrow> error option" where
  "stat_error (StatDenied _) = Some PermissionError"
| "stat_error (StatBroken _) = Some OSError"
| "stat_error _ = None"

text \<open>
  \<open>[item for item in items if item.is_dir()]\<close> and the same with \<open>is_file()\<close>, lines 96 and
  97 of the source: the first item whose test raises ends the comprehension with that
  error.
\<close>

fun comprehension :: "(entry \<Rightarrow> bool) \<Rightarrow> entry list \<Rightarrow> error + entry list" where
  "comprehension test [] = Inr []"
| "comprehension test (item # items) =
     (case stat_error item of
        Some e \<Rightarrow> Inl e
      | None \<Rightarrow>
          (case comprehension test items of
             Inl e \<Rightarrow> Inl e
           | Inr xs \<Rightarrow> Inr (if test item then item # xs else xs)))"

text \<open>\<open>list(directory.iterdir())\<close>; listing something that is no directory is an \<open>OSError\<close> too.\<close>

fun iterdir :: "entry \<Rightarrow> error + entry list" where
  "iterdir (Dir _ items) = Inr items"
| "iterdir (DeniedDir _) = Inl PermissionError"
| "iterdir _ = Inl OSError"

text \<open>\<open>file_path.read_text(encoding='utf-8', errors='replace')\<close>\<close>

fun read_text :: "entry \<Rightarrow> pystr + pystr" where
  "read_text (File _ r) = r"
| "read_text _ = Inl (ascii ''Is a directory'')"

text \<open>\<open>sorted(items, key=lambda x: x.name.lower())\<close>: a stable sort.\<close>

definition sorted_by_name :: "pylib \<Rightarrow> entry list \<Rightarrow> entry list" where
  "sorted_by_name L items = sort_key (\<lambda>x. py_lower L (entry_name x)) items"

section \<open>The tree builder\<close>

text \<open>
  The two lists the closures of the source append to: the lines of the document, and the
  insertion-ordered dictionary of the files recorded for the content section. A record
  holds the anchor, the file (its path and its entry), and the relative path as a string.
\<close>

type_synonym file_record = "pystr \<times> (path \<times> entry) \<times> pystr"

record walk =
  result :: "pystr list"
  file_contents :: "(pystr \<times> file_record) list"

text \<open>U+1F4C1, U+1F4C4, and U+26A0 with U+FE0F.\<close>

definition FOLDER_SYMBOL :: pystr where
  "FOLDER_SYMBOL = [0x1F4C1]"

definition FILE_SYMBOL :: pystr where
  "FILE_SYMBOL = [0x1F4C4]"

definition WARNING_SYMBOL :: pystr where
  "WARNING_SYMBOL = [0x26A0, 0xFE0F]"

definition indent :: pystr where
  "indent = ascii ''  ''"

definition denied_line :: "pystr \<Rightarrow> pystr" where
  "denied_line prefix =
     prefix @ indent @ ascii ''- '' @ WARNING_SYMBOL @ ascii '' [Permission denied]''"

definition folder_line :: "pystr \<Rightarrow> pystr \<Rightarrow> pystr" where
  "folder_line prefix name = prefix @ indent @ ascii ''- '' @ FOLDER_SYMBOL @ ascii '' '' @ name"

definition file_line :: "pystr \<Rightarrow> pystr \<Rightarrow> pystr \<Rightarrow> pystr" where
  "file_line prefix name anchor_id =
     prefix @ indent @ ascii ''- '' @ FILE_SYMBOL @ ascii '' ['' @ name @ ascii ''](#'' @
       anchor_id @ ascii '')''"

definition append_line :: "pystr \<Rightarrow> walk \<Rightarrow> walk" where
  "append_line l st = st\<lparr>result := result st @ [l]\<rparr>"

text \<open>The loop over the files of one directory, lines 112 to 128 of the source.\<close>

fun files_loop ::
  "pylib \<Rightarrow> config \<Rightarrow> path \<Rightarrow> path \<Rightarrow> pystr \<Rightarrow> entry list \<Rightarrow> walk \<Rightarrow> walk" where
  "files_loop L cfg directory_path directory prefix [] st = st"
| "files_loop L cfg directory_path directory prefix (f # rest) st =
     (let file_item = directory @ [entry_name f] in
      if should_ignore L cfg file_item \<or> determine_file_language L file_item = None
      then files_loop L cfg directory_path directory prefix rest st
      else
        let rel_path = path_str (relative_to file_item directory_path);
            anchor_id = create_anchor_id L rel_path;
            st1 = append_line (file_line prefix (path_name file_item) anchor_id) st;
            st2 = (if include_file_contents cfg
                   then st1\<lparr>file_contents :=
                          AList.update (rel_path @ ascii ''//'' @ path_name file_item)
                            (anchor_id, (file_item, f), rel_path) (file_contents st1)\<rparr>
                   else st1)
        in files_loop L cfg directory_path directory prefix rest st2)"

lemma size_insort_key: "size_list f (insort_key k x xs) = Suc (f x + size_list f xs)"
  by (induction xs) auto

lemma size_sort_key: "size_list f (sort_key k xs) = size_list f xs"
  by (induction xs) (auto simp: size_insort_key)

lemma size_filter_le: "size_list f (filter P xs) \<le> size_list f xs"
  by (induction xs) auto

lemma size_sorted_filter: "size_list f (sorted_by_name L (filter P xs)) \<le> size_list f xs"
  by (simp add: sorted_by_name_def size_sort_key size_filter_le)

lemma iterdir_size: "iterdir d = Inr items \<Longrightarrow> size_list size items < size d"
  by (cases d) auto

lemma comprehension_filter: "comprehension test items = Inr xs \<Longrightarrow> xs = filter test items"
  by (induction items arbitrary: xs) (auto split: option.splits sum.splits)

text \<open>
  \<open>_build_tree\<close>, lines 86 to 128 of the source, with the loop over the subdirectories
  (lines 100 to 109) as \<open>dirs_loop\<close>. \<open>PermissionError\<close> of the listing is caught; an error
  of the two comprehensions, which stand outside the \<open>try\<close>, or of a call below leaves the
  function.
\<close>

function build_tree ::
    "pylib \<Rightarrow> config \<Rightarrow> path \<Rightarrow> path \<Rightarrow> entry \<Rightarrow> pystr \<Rightarrow> walk \<Rightarrow> error + walk"
  and dirs_loop ::
    "pylib \<Rightarrow> config \<Rightarrow> path \<Rightarrow> path \<Rightarrow> pystr \<Rightarrow> entry list \<Rightarrow> walk \<Rightarrow> error + walk"
where
  "build_tree L cfg directory_path directory d prefix st =
     (case iterdir d of
        Inl e \<Rightarrow> (if e = PermissionError then Inr (append_line (denied_line prefix) st) else Inl e)
      | Inr items \<Rightarrow>
          (case comprehension is_dir items of
             Inl e \<Rightarrow> Inl e
           | Inr dirs \<Rightarrow>
               (case comprehension is_file items of
                  Inl e \<Rightarrow> Inl e
                | Inr files \<Rightarrow>
                    (case dirs_loop L cfg directory_path directory prefix
                            (sorted_by_name L dirs) st of
                       Inl e \<Rightarrow> Inl e
                     | Inr st' \<Rightarrow>
                         Inr (files_loop L cfg directory_path directory prefix
                                (sorted_by_name L files) st')))))"
| "dirs_loop L cfg directory_path directory prefix [] st = Inr st"
| "dirs_loop L cfg directory_path directory prefix (dir_item # rest) st =
     (let item = directory @ [entry_name dir_item] in
      if should_ignore L cfg item then dirs_loop L cfg directory_path directory prefix rest st
      else
        (case build_tree L cfg directory_path item dir_item (prefix @ indent)
                (append_line (folder_line prefix (path_name item)) st) of
           Inl e \<Rightarrow> Inl e
         | Inr st' \<Rightarrow> dirs_loop L cfg directory_path directory prefix rest st'))"
  by pat_completeness auto
termination
proof (relation "measure (\<lambda>x. case x of
    Inl (L, cfg, root, dir, d, prefix, st) \<Rightarrow> 2 * size d
  | Inr (L, cfg, root, dir, prefix, ds, st) \<Rightarrow> 2 * size_list size ds + 1)", goal_cases)
  case 1
  then show ?case by simp
next
  case (2 L cfg directory_path directory d prefix st items dirs files)
  from 2(2) have "dirs = filter is_dir items"
    by (rule comprehension_filter)
  then have "size_list size (sorted_by_name L dirs) \<le> size_list size items"
    by (simp add: size_sorted_filter)
  with iterdir_size [OF 2(1)] show ?case by simp
next
  case 3
  then show ?case by simp
next
  case 4
  then show ?case by simp
next
  case 5
  then show ?case by simp
qed

declare build_tree.simps [simp del]

section \<open>The content section and the document\<close>

text \<open>The loop over the recorded files, lines 140 to 174 of the source.\<close>

fun emit_contents ::
  "pylib \<Rightarrow> (pystr \<times> file_record) list \<Rightarrow> pystr list \<Rightarrow> error + pystr list" where
  "emit_contents L [] res = Inr res"
| "emit_contents L ((filename, (anchor_id, (file_path, f), rel_path)) # rest) res =
     (case determine_file_language L file_path of
        None \<Rightarrow> Inl AssertionError
      | Some language \<Rightarrow>
          (let res1 = res @ [ascii ''## '' @ anchor_id, ascii ''file: '' @ rel_path,
                 ascii ''Here is contents of '' @ rel_path @ ascii '' with line numbers:'']
           in case read_text f of
                Inr content \<Rightarrow>
                  emit_contents L rest
                    (res1 @ [ascii ''```'' @ language, numbered_block content, ascii ''```'',
                       ascii ''---'' @ [ch CHR 0x0A]])
              | Inl e \<Rightarrow>
                  emit_contents L rest
                    (res1 @ [ascii ''*Error reading file: '' @ e @ ascii ''*'' @ [ch CHR 0x0A]])))"

definition preamble :: "path \<Rightarrow> pystr list" where
  "preamble directory_path =
     [ascii ''This is a source code repo with markdown formatting.'' @ [ch CHR 0x0A],
      ascii ''# Repository Structure'',
      ascii ''We use '' @ FOLDER_SYMBOL @ ascii '' to represent folder, and '' @ FILE_SYMBOL @
        ascii '' as file.'' @ [ch CHR 0x0A],
      ascii ''- '' @ FOLDER_SYMBOL @ ascii '' '' @
        (if path_name directory_path \<noteq> [] then path_name directory_path
         else path_str directory_path)]"

text \<open>
  Lines 49 to 174: the lines of the document, and the dictionary of recorded files as the
  tree builder leaves it.
\<close>

definition document_lines :: "pylib \<Rightarrow> config \<Rightarrow> path \<Rightarrow> entry \<Rightarrow> error + pystr list" where
  "document_lines L cfg directory_path root =
     (case build_tree L cfg directory_path directory_path root []
             \<lparr>result = preamble directory_path, file_contents = []\<rparr> of
        Inl e \<Rightarrow> Inl e
      | Inr st \<Rightarrow>
          if include_file_contents cfg \<and> file_contents st \<noteq> []
          then emit_contents L (file_contents st)
                 (result st @ [[ch CHR 0x0A] @ ascii ''---'' @ [ch CHR 0x0A],
                    ascii ''# File Contents'' @ [ch CHR 0x0A]])
          else Inr (result st))"

text \<open>
  What a call leaves behind: the value returned (\<open>None\<close> is Python's \<open>None\<close>), what was printed,
  and the files written.
\<close>

record outcome =
  returned :: "pystr option"
  printed :: "pystr list"
  written :: "(pystr \<times> pystr) list"

text \<open>
  \<open>generate_repo_structure_to_markdown\<close>. \<open>can_open\<close> says whether opening \<open>output_file\<close> for
  writing and writing the document succeed; when they do not, the error leaves the
  function.
\<close>

definition generate_repo_structure_to_markdown ::
  "pylib \<Rightarrow> (pystr \<Rightarrow> bool) \<Rightarrow> path \<Rightarrow> entry \<Rightarrow> pystr option \<Rightarrow> config \<Rightarrow> error + outcome"
where
  "generate_repo_structure_to_markdown L can_open directory_path root output_file cfg =
     (case document_lines L cfg directory_path root of
        Inl e \<Rightarrow> Inl e
      | Inr res \<Rightarrow>
          (let markdown_structure = join [ch CHR 0x0A] res in
           case output_file of
             None \<Rightarrow> Inr \<lparr>returned = Some markdown_structure, printed = [markdown_structure],
                          written = []\<rparr>
           | Some file \<Rightarrow>
               if file = [] then
                 Inr \<lparr>returned = Some markdown_structure, printed = [markdown_structure],
                       written = []\<rparr>
               else if can_open file then
                 Inr \<lparr>returned = Some markdown_structure,
                       printed = [markdown_structure,
                         ascii ''Repository structure saved to '' @ file],
                       written = [(file, markdown_structure)]\<rparr>
               else Inl OSError))"

section \<open>Notions used to state the properties\<close>

text \<open>
  The tree section told as a list: for a directory, each subdirectory that is not ignored, in
  sorted order, as its folder line followed by its own listing, then the line of each file
  that is neither ignored nor without a language, in sorted order.
\<close>

definition listed_file :: "pylib \<Rightarrow> config \<Rightarrow> path \<Rightarrow> entry \<Rightarrow> bool" where
  "listed_file L cfg directory f \<longleftrightarrow>
     \<not> should_ignore L cfg (directory @ [entry_name f]) \<and>
     determine_file_language L (directory @ [entry_name f]) \<noteq> None"

definition listed_file_line :: "pylib \<Rightarrow> path \<Rightarrow> path \<Rightarrow> pystr \<Rightarrow> entry \<Rightarrow> pystr" where
  "listed_file_line L directory_path directory prefix f =
     file_line prefix (path_name (directory @ [entry_name f]))
       (create_anchor_id L
          (path_str (relative_to (directory @ [entry_name f]) directory_path)))"

lemma entry_size_in_sorted:
  "sub \<in> set (sorted_by_name L (filter Q items)) \<Longrightarrow> size sub < Suc (size_list size items)"
  by (auto simp: sorted_by_name_def less_Suc_eq_le size_list_estimation')

function tree_listing ::
  "pylib \<Rightarrow> config \<Rightarrow> path \<Rightarrow> path \<Rightarrow> pystr \<Rightarrow> entry \<Rightarrow> pystr list" where
  "tree_listing L cfg directory_path directory prefix (Dir n items) =
     concat (map (\<lambda>sub. folder_line prefix (path_name (directory @ [entry_name sub])) #
                   tree_listing L cfg directory_path (directory @ [entry_name sub])
                     (prefix @ indent) sub)
              (filter (\<lambda>sub. \<not> should_ignore L cfg (directory @ [entry_name sub]))
                 (sorted_by_name L (filter is_dir items)))) @
     map (listed_file_line L directory_path directory prefix)
       (filter (listed_file L cfg directory) (sorted_by_name L (filter is_file items)))"
| "tree_listing L cfg directory_path directory prefix (DeniedDir n) = [denied_line prefix]"
| "tree_listing L cfg directory_path directory prefix (File n r) = []"
| "tree_listing L cfg directory_path directory prefix (BrokenDir n) = []"
| "tree_listing L cfg directory_path directory prefix (Other n) = []"
| "tree_listing L cfg directory_path directory prefix (StatDenied n) = []"
| "tree_listing L cfg directory_path directory prefix (StatBroken n) = []"
  by pat_completeness auto
termination
  by (relation "measure (\<lambda>(L, cfg, root, dir, prefix, d). size d)")
    (auto dest: entry_size_in_sorted)

text \<open>Every recorded file has a language.\<close>

definition resolvable :: "pylib \<Rightarrow> (pystr \<times> file_record) list \<Rightarrow> bool" where
  "resolvable L recs \<longleftrightarrow>
     (\<forall>(filename, (anchor_id, (file_path, f), rel_path)) \<in> set recs.
        determine_file_language L file_path \<noteq> None)"

text \<open>
  What the content section holds for one recorded file: the three heading lines, then the
  fence, the numbered block and the closing lines, or the error notice when the file
  cannot be read.
\<close>

definition record_section :: "pylib \<Rightarrow> pystr \<times> file_record \<Rightarrow> pystr list" where
  "record_section L r =
     (case r of (filename, (anchor_id, (file_path, f), rel_path)) \<Rightarrow>
        (case determine_file_language L file_path of
           None \<Rightarrow> []
         | Some language \<Rightarrow>
             [ascii ''## '' @ anchor_id, ascii ''file: '' @ rel_path,
              ascii ''Here is contents of '' @ rel_path @ ascii '' with line numbers:''] @
             (case read_text f of
                Inr content \<Rightarrow>
                  [ascii ''```'' @ language, numbered_block content, ascii ''```'',
                   ascii ''---'' @ [ch CHR 0x0A]]
              | Inl e \<Rightarrow> [ascii ''*Error reading file: '' @ e @ ascii ''*'' @ [ch CHR 0x0A]])))"

text \<open>
  A tree in which the only thing that fails is listing a directory with \<open>PermissionError\<close>:
  every entry of a listed directory can be classified, and every directory below the root
  is listed or denied.
\<close>

fun walkable :: "entry \<Rightarrow> bool" where
  "walkable (Dir n items) =
     (\<forall>e \<in> set items. stat_error e = None \<and> (is_dir e \<longrightarrow> walkable e))"
| "walkable (DeniedDir n) = True"
| "walkable _ = False"

text \<open>The error of the first entry that cannot be classified.\<close>

fun first_stat_error :: "entry list \<Rightarrow> error option" where
  "first_stat_error [] = None"
| "first_stat_error (item # items) =
     (case stat_error item of Some e \<Rightarrow> Some e | None \<Rightarrow> first_stat_error items)"

text \<open>
  A property \<open>I\<close> of the walk that appending a line keeps, and that the loop over the files
  keeps in every directory with the property \<open>D\<close>; \<open>D\<close> passes from a directory to each
  subdirectory that is not ignored.
\<close>

definition walk_inv ::
  "(walk \<Rightarrow> bool) \<Rightarrow> (path \<Rightarrow> bool) \<Rightarrow> pylib \<Rightarrow> config \<Rightarrow> path \<Rightarrow> bool" where
  "walk_inv I D L cfg root \<longleftrightarrow>
     (\<forall>l st. I st \<longrightarrow> I (append_line l st)) \<and>
     (\<forall>dir prefix fs st. D dir \<and> I st \<longrightarrow> I (files_loop L cfg root dir prefix fs st)) \<and>
     (\<forall>dir n. D dir \<and> \<not> should_ignore L cfg (dir @ [n]) \<longrightarrow> D (dir @ [n]))"

text \<open>
  A tree without the entries that \<open>keep\<close> rejects, at every level below the root.
\<close>

fun prune :: "(entry \<Rightarrow> bool) \<Rightarrow> entry \<Rightarrow> entry" where
  "prune keep (Dir n items) = Dir n (map (prune keep) (filter keep items))"
| "prune keep e = e"

text \<open>
  In every directory of the tree, \<open>is_dir\<close> and \<open>is_file\<close> answer for every entry.
\<close>

fun classifiable :: "entry \<Rightarrow> bool" where
  "classifiable (Dir n items) \<longleftrightarrow> (\<forall>e \<in> set items. stat_error e = None \<and> classifiable e)"
| "classifiable e \<longleftrightarrow> True"

text \<open>A file whose extension, lowercased, is not in the language table.\<close>

definition unsupported :: "pylib \<Rightarrow> entry \<Rightarrow> bool" where
  "unsupported L e \<longleftrightarrow>
     is_file e \<and> map_of extension_map (py_lower L (name_suffix (entry_name e))) = None"

text \<open>An entry whose name begins with a dot.\<close>

definition hidden :: "entry \<Rightarrow> bool" where
  "hidden e \<longleftrightarrow> hidden_match (entry_name e)"

text \<open>
  The builder passes over every entry that \<open>omit\<close> holds for: it can be classified, and it
  is filtered out after that.
\<close>

definition skipped :: "pylib \<Rightarrow> config \<Rightarrow> (entry \<Rightarrow> bool) \<Rightarrow> bool" where
  "skipped L cfg omit \<longleftrightarrow>
     (\<forall>e. omit e \<longrightarrow> stat_error e = None) \<and>
     (\<forall>e dir. omit e \<and> is_dir e \<longrightarrow> should_ignore L cfg (dir @ [entry_name e])) \<and>
     (\<forall>e dir. omit e \<and> is_file e \<longrightarrow>
        should_ignore L cfg (dir @ [entry_name e]) \<or>
        determine_file_language L (dir @ [entry_name e]) = None)"

text \<open>The prefixes of the tree section are runs of blanks.\<close>

definition spaces :: "nat \<Rightarrow> pystr" where
  "spaces k = replicate k (ch CHR '' '')"

text \<open>The three kinds of line the builder appends.\<close>

definition emitted_line :: "pylib \<Rightarrow> config \<Rightarrow> path \<Rightarrow> pystr \<Rightarrow> bool" where
  "emitted_line L cfg root l \<longleftrightarrow>
     (\<exists>j. l = denied_line (spaces j)) \<or>
     (\<exists>j dir e. l = folder_line (spaces j) (path_name (dir @ [entry_name e])) \<and>
        \<not> should_ignore L cfg (dir @ [entry_name e])) \<or>
     (\<exists>j dir f. l = listed_file_line L root dir (spaces j) f \<and> listed_file L cfg dir f)"

definition line_body :: "pystr \<Rightarrow> pystr" where
  "line_body l = dropWhile (\<lambda>c. c = ch CHR '' '') l"

text \<open>No part of a path below the root begins with a dot.\<close>

definition visible_dir :: "path \<Rightarrow> path \<Rightarrow> bool" where
  "visible_dir root dir \<longleftrightarrow>
     length root \<le> length dir \<and> (\<forall>c \<in> set (drop (length root) dir). \<not> hidden_match c)"

definition visible_records :: "path \<Rightarrow> (pystr \<times> file_record) list \<Rightarrow> bool" where
  "visible_records root recs \<longleftrightarrow>
     (\<forall>(filename, (anchor_id, (file_path, f), rel_path)) \<in> set recs.
        visible_dir root file_path)"

section \<open>An instance of the library and a small repository\<close>

text \<open>
  \<open>str.lower\<close> on strings of ASCII and Latin-1 characters and the Kelvin sign U+212A, whose
  lowercase is the ASCII letter \<open>k\<close>.
\<close>

definition latin_lower_char :: "nat \<Rightarrow> nat" where
  "latin_lower_char c =
     (if (0x41 \<le> c \<and> c \<le> 0x5A) \<or> (0xC0 \<le> c \<and> c \<le> 0xDE \<and> c \<noteq> 0xD7) then c + 32
      else if c = 0x212A then ch CHR ''k''
      else c)"

definition latin_lower :: "pystr \<Rightarrow> pystr" where
  "latin_lower s = map latin_lower_char s"

text \<open>
  Shell-glob matching of a name against a pattern of literal characters, \<open>*\<close> and \<open>?\<close>:
  \<open>fnmatch.fnmatchcase\<close> on patterns without brackets.
\<close>

fun glob_match :: "pystr \<Rightarrow> pystr \<Rightarrow> bool" where
  "glob_match name [] = (name = [])"
| "glob_match name (p # ps) =
     (if p = ch CHR ''*'' then
        glob_match name ps \<or> (case name of [] \<Rightarrow> False | _ # t \<Rightarrow> glob_match t (p # ps))
      else (case name of [] \<Rightarrow> False | c # t \<Rightarrow> (p = ch CHR ''?'' \<or> c = p) \<and> glob_match t ps))"

declare glob_match.simps [simp del]

definition example_lib :: pylib where
  "example_lib = \<lparr>py_lower = latin_lower, py_fnmatchcase = glob_match\<rparr>"

text \<open>A small repository: a readable file, an unreadable one, a hidden directory, an
  unsupported file and a directory that may not be listed.\<close>

definition example_cfg :: config where
  "example_cfg = \<lparr>ignore_patterns = None, ignore_hidden = True, include_file_contents = True\<rparr>"

definition example_root :: entry where
  "example_root =
     Dir (ascii ''repo'')
       [File (ascii ''README.md'') (Inr (ascii ''hi'')),
        Dir (ascii ''a'')
          [File (ascii ''b.py'') (Inl (ascii ''gone'')),
           Dir (ascii ''.git'') [File (ascii ''x.py'') (Inr (ascii ''no''))],
           File (ascii ''c.txt'') (Inr (ascii ''zz''))],
        DeniedDir (ascii ''B'')]"

definition example_state :: walk where
  "example_state =
     \<lparr>result =
        [folder_line [] (ascii ''a''), file_line indent (ascii ''b.py'') (ascii ''a-b-py''),
         folder_line [] (ascii ''B''), denied_line indent,
         file_line [] (ascii ''README.md'') (ascii ''readme-md'')],
      file_contents =
        [(ascii ''a/b.py//b.py'', ascii ''a-b-py'',
          ([ascii ''repo'', ascii ''a'', ascii ''b.py''],
           File (ascii ''b.py'') (Inl (ascii ''gone''))), ascii ''a/b.py''),
         (ascii ''README.md//README.md'', ascii ''readme-md'',
          ([ascii ''repo'', ascii ''README.md''],
           File (ascii ''README.md'') (Inr (ascii ''hi''))), ascii ''README.md'')]\<rparr>"

text \<open>
  A directory whose file names hold letters outside ASCII: U+00E0 (a with grave) and U+00C9
  (capital E with acute), each followed by \<open>.py\<close>, and \<open>z.py\<close>; and a repository with a
  directory that may be listed but not searched.
\<close>

definition accent_root :: entry where
  "accent_root =
     Dir (ascii ''repo'')
       [File (0xE0 # ascii ''.py'') (Inr []), File (0xC9 # ascii ''.py'') (Inr []),
        File (ascii ''z.py'') (Inr [])]"

definition accent_state :: walk where
  "accent_state =
     \<lparr>result =
        [file_line [] (ascii ''z.py'') (ascii ''z-py''),
         file_line [] (0xE0 # ascii ''.py'') (ascii ''py''),
         file_line [] (0xC9 # ascii ''.py'') (ascii ''py'')],
      file_contents =
        [(ascii ''z.py//z.py'', ascii ''z-py'',
          ([ascii ''repo'', ascii ''z.py''], File (ascii ''z.py'') (Inr [])), ascii ''z.py''),
         (0xE0 # ascii ''.py//'' @ 0xE0 # ascii ''.py'', ascii ''py'',
          ([ascii ''repo'', 0xE0 # ascii ''.py''], File (0xE0 # ascii ''.py'') (Inr [])),
          0xE0 # ascii ''.py''),
         (0xC9 # ascii ''.py//'' @ 0xC9 # ascii ''.py'', ascii ''py'',
          ([ascii ''repo'', 0xC9 # ascii ''.py''], File (0xC9 # ascii ''.py'') (Inr [])),
          0xC9 # ascii ''.py'')]\<rparr>"

definition locked_root :: entry where
  "locked_root =
     Dir (ascii ''repo'')
       [File (ascii ''ok.py'') (Inr []), Dir (ascii ''locked'') [StatDenied (ascii ''a.py'')]]"

lemma example_walk:
  "build_tree example_lib example_cfg [ascii ''repo''] [ascii ''repo''] example_root []
     \<lparr>result = [], file_contents = []\<rparr> = Inr example_state"
  by code_simp

lemma accent_walk:
  "build_tree example_lib example_cfg [ascii ''repo''] [ascii ''repo''] accent_root []
     \<lparr>result = [], file_contents = []\<rparr> = Inr accent_state"
  by code_simp

section \<open>Anchor identifiers\<close>

lemma sub_non_alnum_no_upper:
  "\<forall>c \<in> set s. \<not> is_upper c \<Longrightarrow> sub_non_alnum s = spec_replace s"
  by (simp add: sub_non_alnum_def spec_replace_def)

lemma spec_collapse_dash:
  "spec_collapse (ch CHR ''-'' # ch CHR ''-'' # cs) = spec_collapse (ch CHR ''-'' # cs)"
  by simp

lemma sub_dashes_collapse: "sub_dashes s = spec_collapse s"
proof (induction s rule: sub_dashes.induct)
  case (1 a b cs)
  show ?case
  proof (cases "a = ch CHR ''-'' \<and> b = ch CHR ''-''")
    case True
    with 1 show ?thesis by simp
  next
    case False
    with 1 show ?thesis by auto
  qed
qed simp_all

lemma rev_dropWhile_rev:
  "rev (dropWhile P (rev t)) = take (length t - length (takeWhile P (rev t))) t"
proof -
  have "rev t = takeWhile P (rev t) @ dropWhile P (rev t)" by simp
  then have "t = rev (dropWhile P (rev t)) @ rev (takeWhile P (rev t))"
    by (metis rev_append rev_rev_ident)
  moreover have "length (rev (dropWhile P (rev t))) = length t - length (takeWhile P (rev t))"
  proof -
    have "length (takeWhile P (rev t)) + length (dropWhile P (rev t)) = length (rev t)"
      by (metis length_append takeWhile_dropWhile_id)
    then show ?thesis by simp
  qed
  ultimately show ?thesis
    by (metis append_eq_conv_conj)
qed

lemma strip_dashes_spec: "strip_dashes s = spec_strip s"
  by (simp add: strip_dashes_def spec_strip_def Let_def rev_dropWhile_rev)


lemma set_sub_dashes: "set (sub_dashes s) \<subseteq> set s"
  by (induction s rule: sub_dashes.induct) auto

lemma set_strip_dashes: "set (strip_dashes s) \<subseteq> set s"
  by (auto simp: strip_dashes_def dest!: set_dropWhileD)

lemma anchor_chars:
  "c \<in> set (create_anchor_id L r) \<Longrightarrow> is_lower c \<or> is_upper c \<or> is_digit c \<or> c = ch CHR ''-''"
proof -
  assume "c \<in> set (create_anchor_id L r)"
  with set_strip_dashes set_sub_dashes have "c \<in> set (sub_non_alnum (py_lower L r))"
    unfolding create_anchor_id_def by blast
  then show ?thesis by (auto simp: sub_non_alnum_def)
qed

lemma successively_dropWhile:
  "successively P xs \<Longrightarrow> successively P (dropWhile Q xs)"
  using successively_append_iff [of P "takeWhile Q xs" "dropWhile Q xs"] by simp

lemma hd_sub_dashes: "hd (sub_dashes (b # cs)) = b"
  by (induction "b # cs" arbitrary: b cs rule: sub_dashes.induct) auto

lemma sub_dashes_single: "successively (\<lambda>a b. \<not> (a = ch CHR ''-'' \<and> b = ch CHR ''-'')) (sub_dashes s)"
proof (induction s rule: sub_dashes.induct)
  case (1 a b cs)
  then show ?case
    using hd_sub_dashes [of b cs] by (auto simp: successively_Cons)
qed simp_all

lemma strip_dashes_single:
  assumes "successively (\<lambda>a b. \<not> (a = ch CHR ''-'' \<and> b = ch CHR ''-'')) s"
  shows "successively (\<lambda>a b. \<not> (a = ch CHR ''-'' \<and> b = ch CHR ''-'')) (strip_dashes s)"
proof -
  have c: "(\<lambda>x y. \<not> (y = ch CHR ''-'' \<and> x = ch CHR ''-'')) = (\<lambda>a b. \<not> (a = ch CHR ''-'' \<and> b = ch CHR ''-''))"
    by auto
  from assms show ?thesis
    unfolding strip_dashes_def
    by (simp add: c successively_dropWhile)
qed

lemma strip_dashes_ends:
  assumes "strip_dashes s \<noteq> []"
  shows "hd (strip_dashes s) \<noteq> ch CHR ''-'' \<and> last (strip_dashes s) \<noteq> ch CHR ''-''"
proof -
  let ?P = "\<lambda>c. c = ch CHR ''-''"
  let ?u = "rev (dropWhile ?P s)"
  from assms have n: "dropWhile ?P ?u \<noteq> []"
    by (simp add: strip_dashes_def)
  then have l: "last (strip_dashes s) \<noteq> ch CHR ''-''"
    using hd_dropWhile [of ?P ?u] by (simp add: strip_dashes_def last_rev)
  from n have "?u \<noteq> []" by (metis dropWhile.simps(1))
  have "?u = takeWhile ?P ?u @ dropWhile ?P ?u" by simp
  with n have "last (dropWhile ?P ?u) = last ?u"
    by (metis last_appendR)
  also from \<open>?u \<noteq> []\<close> have "\<dots> = hd (dropWhile ?P s)"
    by (simp add: last_rev)
  also from \<open>?u \<noteq> []\<close> have "\<dots> \<noteq> ch CHR ''-''"
    using hd_dropWhile [of ?P s] by simp
  finally have "hd (strip_dashes s) \<noteq> ch CHR ''-''"
    using n by (simp add: strip_dashes_def hd_rev)
  with l show ?thesis by simp
qed

text \<open>
  C9: for every input string, with a lowercasing that leaves no ASCII capital (as
  \<open>str.lower\<close> does), the anchor generator returns the lowercased string with every character
  outside \<open>[a-z0-9]\<close> replaced by a dash, runs of dashes collapsed to one and the dashes at
  both ends stripped; so the result holds only \<open>[a-z0-9]\<close> and dashes, no two dashes side by
  side, and no dash at either end. The generator is a function of its argument alone.
\<close>

theorem create_anchor_id_spec:
  assumes "\<forall>c \<in> set (py_lower L s). \<not> is_upper c"
  shows "create_anchor_id L s = spec_anchor_id L s \<and>
    (\<forall>c \<in> set (create_anchor_id L s). is_lower c \<or> is_digit c \<or> c = ch CHR ''-'') \<and>
    successively (\<lambda>a b. \<not> (a = ch CHR ''-'' \<and> b = ch CHR ''-'')) (create_anchor_id L s) \<and>
    (create_anchor_id L s \<noteq> [] \<longrightarrow>
       hd (create_anchor_id L s) \<noteq> ch CHR ''-'' \<and> last (create_anchor_id L s) \<noteq> ch CHR ''-'')"
proof (intro conjI ballI impI)
  show "create_anchor_id L s = spec_anchor_id L s"
    by (simp add: create_anchor_id_def spec_anchor_id_def sub_non_alnum_no_upper [OF assms]
        sub_dashes_collapse strip_dashes_spec)
next
  fix c
  assume "c \<in> set (create_anchor_id L s)"
  with set_strip_dashes set_sub_dashes have "c \<in> set (sub_non_alnum (py_lower L s))"
    unfolding create_anchor_id_def by blast
  with assms show "is_lower c \<or> is_digit c \<or> c = ch CHR ''-''"
    by (auto simp: sub_non_alnum_def)
next
  show "successively (\<lambda>a b. \<not> (a = ch CHR ''-'' \<and> b = ch CHR ''-'')) (create_anchor_id L s)"
    unfolding create_anchor_id_def by (intro strip_dashes_single sub_dashes_single)
next
  assume "create_anchor_id L s \<noteq> []"
  then show "hd (create_anchor_id L s) \<noteq> ch CHR ''-''" "last (create_anchor_id L s) \<noteq> ch CHR ''-''"
    unfolding create_anchor_id_def using strip_dashes_ends by blast+
qed

lemma latin_lower_no_upper: "\<forall>c \<in> set (latin_lower s). \<not> is_upper c"
  by (auto simp: latin_lower_def latin_lower_char_def is_upper_def)

theorem create_anchor_id_spec_witness:
  "create_anchor_id example_lib (ascii ''--Src/My_File..'' @ [0x212A] @ ascii ''.PY--'') =
     ascii ''src-my-file-k-py'' \<and>
   spec_anchor_id example_lib (ascii ''--Src/My_File..'' @ [0x212A] @ ascii ''.PY--'') =
     ascii ''src-my-file-k-py''"
proof -
  have l: "\<forall>c \<in> set (py_lower example_lib (ascii ''--Src/My_File..'' @ [0x212A] @ ascii ''.PY--'')).
      \<not> is_upper c"
    by (simp add: example_lib_def latin_lower_no_upper)
  have "spec_anchor_id example_lib (ascii ''--Src/My_File..'' @ [0x212A] @ ascii ''.PY--'') =
     ascii ''src-my-file-k-py''"
    by code_simp
  with create_anchor_id_spec [OF l] show ?thesis by simp
qed

section \<open>The ignore filter: what excludes an entry\<close>

lemma split_char_no_sep: "sep \<notin> set s \<Longrightarrow> split_char sep s = [s]"
  by (induction s) auto

lemma split_char_not_Nil: "split_char sep s \<noteq> []"
  by (induction s) (auto split: list.splits)

lemma split_char_covers:
  "c \<in> set s \<Longrightarrow> c \<noteq> sep \<Longrightarrow> \<exists>x \<in> set (split_char sep s). c \<in> set x"
proof (induction s)
  case Nil
  then show ?case by simp
next
  case (Cons a s)
  then show ?case
    by (cases "split_char sep s") (auto simp: split_char_not_Nil)
qed

lemma star_pattern_has_parts:
  assumes "ch CHR ''*'' \<in> set pattern"
  shows "snd (parse_parts pattern) \<noteq> []"
proof -
  have "set pattern \<subseteq> insert (ch CHR ''/'') (set (dropWhile (\<lambda>c. c = ch CHR ''/'') pattern))"
    by (induction pattern) auto
  with assms have "ch CHR ''*'' \<in> set (dropWhile (\<lambda>c. c = ch CHR ''/'') pattern)"
    by auto
  from split_char_covers [OF this, of "ch CHR ''/''"] obtain x where
    x: "x \<in> set (split_char (ch CHR ''/'') (dropWhile (\<lambda>c. c = ch CHR ''/'') pattern))"
    and s: "ch CHR ''*'' \<in> set x"
    by auto
  from s have "x \<noteq> []" "x \<noteq> ascii ''.''" by (auto simp: ascii_def)
  with x have "x \<in> set (filter (\<lambda>x. x \<noteq> [] \<and> x \<noteq> ascii ''.'')
      (split_char (ch CHR ''/'') (dropWhile (\<lambda>c. c = ch CHR ''/'') pattern)))"
    by simp
  then have "filter (\<lambda>x. x \<noteq> [] \<and> x \<noteq> ascii ''.'')
      (split_char (ch CHR ''/'') (dropWhile (\<lambda>c. c = ch CHR ''/'') pattern)) \<noteq> []"
    by (metis empty_iff empty_set)
  then show ?thesis
    by (simp add: parse_parts_def Let_def)
qed

lemma patterns_loop_iff:
  "patterns_loop L item ps \<longleftrightarrow>
     (\<exists>pattern \<in> set ps. pattern = path_name item \<or>
        (ch CHR ''*'' \<in> set pattern \<and> path_match L item pattern))"
  by (induction ps) auto

lemma parse_parts_single:
  assumes "ch CHR ''/'' \<notin> set pattern" and "ch CHR ''*'' \<in> set pattern"
  shows "parse_parts pattern = ([], [pattern])"
proof -
  have d: "dropWhile (\<lambda>c. c = ch CHR ''/'') pattern = pattern"
    using assms(1) by (cases pattern) auto
  have "pattern \<noteq> []" "pattern \<noteq> ascii ''.''"
    using assms(2) by (auto simp: ascii_def)
  with d split_char_no_sep [OF assms(1)] show ?thesis
    by (simp add: parse_parts_def Let_def ascii_def)
qed

lemma path_match_single:
  assumes "ch CHR ''/'' \<notin> set pattern" and "ch CHR ''*'' \<in> set pattern"
    and "path_name item \<noteq> []"
  shows "path_match L item pattern = py_fnmatchcase L (path_name item) pattern"
proof -
  from assms(3) have ne: "item \<noteq> []" and n: "path_name item = last item"
    by (auto simp: path_name_def path_root_def split: if_splits)
  from ne obtain ys y where i: "item = ys @ [y]"
    by (metis rev_exhaust)
  from n i have l: "path_name (ys @ [y]) = y" by simp
  show ?thesis
    unfolding i l by (simp add: path_match_def parse_parts_single [OF assms(1,2)])
qed

text \<open>
  C1, as the code has it: the filter excludes an entry exactly when \<open>ignore_hidden\<close> is set
  and the name starts with a dot, or a pattern equals the name, or a pattern that holds the
  character \<open>*\<close> matches the path of the entry under \<open>PurePath.match\<close>. For a pattern with
  \<open>*\<close> and without \<open>/\<close> that match is the \<open>fnmatchcase\<close> match of the name. The filter is a
  function of the configuration and the entry.
\<close>

theorem should_ignore_iff:
  "(should_ignore L cfg item \<longleftrightarrow>
      (ignore_hidden cfg \<and> hidden_match (path_name item)) \<or>
      (\<exists>pattern \<in> set (case ignore_patterns cfg of None \<Rightarrow> [] | Some ps \<Rightarrow> ps).
         pattern = path_name item \<or>
         (ch CHR ''*'' \<in> set pattern \<and> path_match L item pattern))) \<and>
   (\<forall>pattern. ch CHR ''*'' \<in> set pattern \<and> ch CHR ''/'' \<notin> set pattern \<and>
        path_name item \<noteq> [] \<longrightarrow>
      path_match L item pattern = py_fnmatchcase L (path_name item) pattern)"
proof
  show "should_ignore L cfg item \<longleftrightarrow>
      (ignore_hidden cfg \<and> hidden_match (path_name item)) \<or>
      (\<exists>pattern \<in> set (case ignore_patterns cfg of None \<Rightarrow> [] | Some ps \<Rightarrow> ps).
         pattern = path_name item \<or>
         (ch CHR ''*'' \<in> set pattern \<and> path_match L item pattern))"
    by (cases "ignore_patterns cfg") (auto simp: should_ignore_def patterns_loop_iff)
next
  show "\<forall>pattern. ch CHR ''*'' \<in> set pattern \<and> ch CHR ''/'' \<notin> set pattern \<and>
        path_name item \<noteq> [] \<longrightarrow>
      path_match L item pattern = py_fnmatchcase L (path_name item) pattern"
    using path_match_single by blast
qed

theorem should_ignore_iff_witness:
  "should_ignore example_lib
       \<lparr>ignore_patterns = Some [ascii ''*.pyc''], ignore_hidden = True,
          include_file_contents = True\<rparr> [ascii ''repo'', ascii ''cache.pyc''] \<and>
   path_match example_lib [ascii ''repo'', ascii ''cache.pyc''] (ascii ''*.pyc'') \<and>
   py_fnmatchcase example_lib (ascii ''cache.pyc'') (ascii ''*.pyc'')"
proof -
  have n: "path_name [ascii ''repo'', ascii ''cache.pyc''] = ascii ''cache.pyc''"
    by (simp add: path_name_def path_root_def ascii_def)
  have f: "py_fnmatchcase example_lib (ascii ''cache.pyc'') (ascii ''*.pyc'')"
    by (simp add: example_lib_def ascii_def glob_match.simps)
  have h: "ch CHR ''*'' \<in> set (ascii ''*.pyc'') \<and> ch CHR ''/'' \<notin> set (ascii ''*.pyc'') \<and>
      path_name [ascii ''repo'', ascii ''cache.pyc''] \<noteq> []"
    by (simp add: n) (simp add: ascii_def)
  note t = should_ignore_iff [of example_lib
      "\<lparr>ignore_patterns = Some [ascii ''*.pyc''], ignore_hidden = True,
         include_file_contents = True\<rparr>" "[ascii ''repo'', ascii ''cache.pyc'']"]
  from t h have m: "path_match example_lib [ascii ''repo'', ascii ''cache.pyc''] (ascii ''*.pyc'')"
    using f n by auto
  from t m h have "should_ignore example_lib
       \<lparr>ignore_patterns = Some [ascii ''*.pyc''], ignore_hidden = True,
          include_file_contents = True\<rparr> [ascii ''repo'', ascii ''cache.pyc'']"
    by simp
  with m f show ?thesis by simp
qed

text \<open>
  C1 as the specification words it fails twice. The pattern \<open>?.py\<close> holds a wildcard and
  matches the name \<open>a.py\<close> as a glob, yet holds no \<open>*\<close>, so the code keeps the entry. The
  pattern \<open>src/*\<close> does not match the name \<open>a.py\<close>, yet it matches the path
  \<open>repo/src/a.py\<close>, so the code drops the entry.
\<close>

theorem should_ignore_spec_counterexample:
  "\<not> should_ignore example_lib
       \<lparr>ignore_patterns = Some [ascii ''?.py''], ignore_hidden = False,
          include_file_contents = True\<rparr> [ascii ''repo'', ascii ''a.py''] \<and>
   spec_should_ignore example_lib
       \<lparr>ignore_patterns = Some [ascii ''?.py''], ignore_hidden = False,
          include_file_contents = True\<rparr> (path_name [ascii ''repo'', ascii ''a.py'']) \<and>
   should_ignore example_lib
       \<lparr>ignore_patterns = Some [ascii ''src/*''], ignore_hidden = False,
          include_file_contents = True\<rparr> [ascii ''repo'', ascii ''src'', ascii ''a.py''] \<and>
   \<not> spec_should_ignore example_lib
       \<lparr>ignore_patterns = Some [ascii ''src/*''], ignore_hidden = False,
          include_file_contents = True\<rparr>
       (path_name [ascii ''repo'', ascii ''src'', ascii ''a.py''])"
  by (simp add: should_ignore_def spec_should_ignore_def has_wildcard_def path_name_def
      path_root_def hidden_match_def path_match_def parse_parts_def glob_match.simps
      example_lib_def ascii_def)

section \<open>Invariants of the walk\<close>

lemma comprehension_first:
  "comprehension test items =
     (case first_stat_error items of Some e \<Rightarrow> Inl e | None \<Rightarrow> Inr (filter test items))"
  by (induction items) (auto split: option.splits)

lemma first_stat_error_None:
  "first_stat_error items = None \<longleftrightarrow> (\<forall>e \<in> set items. stat_error e = None)"
  by (induction items) (auto split: option.splits)

lemma build_tree_Dir:
  "build_tree L cfg root dir (Dir n items) prefix st =
     (case first_stat_error items of
        Some e \<Rightarrow> Inl e
      | None \<Rightarrow>
          (case dirs_loop L cfg root dir prefix (sorted_by_name L (filter is_dir items)) st of
             Inl e \<Rightarrow> Inl e
           | Inr st' \<Rightarrow>
               Inr (files_loop L cfg root dir prefix
                      (sorted_by_name L (filter is_file items)) st')))"
  by (simp add: build_tree.simps comprehension_first split: option.splits)

lemma dirs_loop_inv:
  assumes inv: "walk_inv I D L cfg root"
  shows "\<forall>d \<in> set ds. \<forall>dir prefix st st'. D dir \<longrightarrow>
        build_tree L cfg root dir d prefix st = Inr st' \<longrightarrow> I st \<longrightarrow> I st' \<Longrightarrow> D dir \<Longrightarrow>
    dirs_loop L cfg root dir prefix ds st = Inr st' \<Longrightarrow> I st \<Longrightarrow> I st'"
proof (induction ds arbitrary: st)
  case Nil
  then show ?case by simp
next
  case (Cons d ds)
  show ?case
  proof (cases "should_ignore L cfg (dir @ [entry_name d])")
    case True
    with Cons show ?thesis by simp
  next
    case False
    with Cons.prems(3) obtain st1 where
      b: "build_tree L cfg root (dir @ [entry_name d]) d (prefix @ indent)
            (append_line (folder_line prefix (path_name (dir @ [entry_name d]))) st) = Inr st1"
      and r: "dirs_loop L cfg root dir prefix ds st1 = Inr st'"
      by (auto simp: Let_def split: sum.splits)
    from inv Cons.prems(4)
    have "I (append_line (folder_line prefix (path_name (dir @ [entry_name d]))) st)"
      by (simp add: walk_inv_def)
    moreover from inv False Cons.prems(2) have "D (dir @ [entry_name d])"
      by (simp add: walk_inv_def)
    ultimately have "I st1" using b Cons.prems(1) by simp
    with r show ?thesis using Cons.IH Cons.prems(1,2) by simp
  qed
qed

lemma build_tree_inv:
  assumes inv: "walk_inv I D L cfg root"
  shows "D dir \<Longrightarrow> build_tree L cfg root dir d prefix st = Inr st' \<Longrightarrow> I st \<Longrightarrow> I st'"
proof (induction d arbitrary: dir prefix st st')
  case (Dir n items)
  from Dir.prems(2) obtain st1 where
    d: "dirs_loop L cfg root dir prefix (sorted_by_name L (filter is_dir items)) st = Inr st1"
    and f: "st' = files_loop L cfg root dir prefix (sorted_by_name L (filter is_file items)) st1"
    by (auto simp: build_tree_Dir split: sum.splits option.splits)
  have "\<forall>d \<in> set (sorted_by_name L (filter is_dir items)). \<forall>dir prefix st st'. D dir \<longrightarrow>
        build_tree L cfg root dir d prefix st = Inr st' \<longrightarrow> I st \<longrightarrow> I st'"
    using Dir.IH by (auto simp: sorted_by_name_def)
  then have "I st1"
    using Dir.prems(1) d Dir.prems(3) by (rule dirs_loop_inv [OF inv])
  with inv f Dir.prems(1) show ?case by (simp add: walk_inv_def)
next
  case (DeniedDir n)
  with inv show ?case by (auto simp: build_tree.simps walk_inv_def)
qed (simp_all add: build_tree.simps)

lemma set_update_subset: "set (AList.update k v al) \<subseteq> insert (k, v) (set al)"
  by (induction al) auto

lemma resolvable_update:
  "resolvable L recs \<Longrightarrow> determine_file_language L fp \<noteq> None \<Longrightarrow>
   resolvable L (AList.update k (a, (fp, f), rel) recs)"
  using set_update_subset [of k "(a, (fp, f), rel)" recs]
  by (fastforce simp: resolvable_def)

lemma files_loop_resolvable:
  "resolvable L (file_contents st) \<Longrightarrow>
   resolvable L (file_contents (files_loop L cfg root dir prefix fs st))"
proof (induction fs arbitrary: st)
  case Nil
  then show ?case by simp
next
  case (Cons f fs)
  show ?case
  proof (cases "should_ignore L cfg (dir @ [entry_name f]) \<or>
      determine_file_language L (dir @ [entry_name f]) = None")
    case True
    with Cons show ?thesis by auto
  next
    case False
    with Cons.prems show ?thesis
      by (auto simp: Let_def append_line_def intro!: Cons.IH resolvable_update)
  qed
qed

lemma resolvable_inv: "walk_inv (\<lambda>st. resolvable L (file_contents st)) (\<lambda>dir. True) L cfg root"
  by (simp add: walk_inv_def append_line_def files_loop_resolvable)

lemma emit_contents_resolvable:
  "resolvable L recs \<Longrightarrow> \<exists>out. emit_contents L recs res = Inr out"
proof (induction recs arbitrary: res)
  case Nil
  then show ?case by simp
next
  case (Cons r rest)
  obtain filename anchor_id file_path f rel_path
    where r: "r = (filename, (anchor_id, (file_path, f), rel_path))"
    by (metis prod.exhaust)
  from Cons.prems r obtain language where l: "determine_file_language L file_path = Some language"
    and t: "resolvable L rest"
    by (auto simp: resolvable_def)
  show ?case
    using Cons.IH [OF t] by (cases "read_text f") (simp_all add: r l)
qed

lemma first_stat_error_kind: "first_stat_error items = Some e \<Longrightarrow> e \<noteq> AssertionError"
proof (induction items)
  case Nil
  then show ?case by simp
next
  case (Cons x xs)
  then show ?case by (cases x) auto
qed

lemma dirs_loop_error:
  "\<forall>d \<in> set ds. \<forall>dir prefix st e.
      build_tree L cfg root dir d prefix st = Inl e \<longrightarrow> e \<noteq> AssertionError \<Longrightarrow>
   dirs_loop L cfg root dir prefix ds st = Inl e \<Longrightarrow> e \<noteq> AssertionError"
proof (induction ds arbitrary: st)
  case Nil
  then show ?case by simp
next
  case (Cons d ds)
  then show ?case
    by (auto simp: Let_def split: if_splits sum.splits)
qed

lemma build_tree_error:
  "build_tree L cfg root dir d prefix st = Inl e \<Longrightarrow> e \<noteq> AssertionError"
proof (induction d arbitrary: dir prefix st e)
  case (Dir n items)
  have ih: "\<forall>d \<in> set (sorted_by_name L (filter is_dir items)). \<forall>dir prefix st e.
      build_tree L cfg root dir d prefix st = Inl e \<longrightarrow> e \<noteq> AssertionError"
    using Dir.IH by (simp add: sorted_by_name_def) blast
  show ?case
  proof (cases "first_stat_error items")
    case None
    with Dir.prems
    have "dirs_loop L cfg root dir prefix (sorted_by_name L (filter is_dir items)) st = Inl e"
      by (auto simp: build_tree_Dir split: sum.splits)
    with ih show ?thesis by (rule dirs_loop_error)
  next
    case (Some e')
    with Dir.prems have "e = e'" by (simp add: build_tree_Dir)
    with Some show ?thesis by (simp add: first_stat_error_kind)
  qed
qed (auto simp: build_tree.simps split: if_splits)

lemma dirs_loop_walkable:
  "\<forall>d \<in> set ds. \<forall>dir prefix st. \<exists>st'. build_tree L cfg root dir d prefix st = Inr st' \<Longrightarrow>
   \<exists>st'. dirs_loop L cfg root dir prefix ds st = Inr st'"
proof (induction ds arbitrary: st)
  case Nil
  then show ?case by simp
next
  case (Cons d ds)
  show ?case
  proof (cases "should_ignore L cfg (dir @ [entry_name d])")
    case True
    with Cons show ?thesis by simp
  next
    case False
    from Cons.prems obtain st1 where
      "build_tree L cfg root (dir @ [entry_name d]) d (prefix @ indent)
         (append_line (folder_line prefix (path_name (dir @ [entry_name d]))) st) = Inr st1"
      by (metis list.set_intros(1))
    with False Cons show ?thesis by simp
  qed
qed

lemma build_tree_walkable:
  "walkable d \<Longrightarrow> \<exists>st'. build_tree L cfg root dir d prefix st = Inr st'"
proof (induction d arbitrary: dir prefix st)
  case (Dir n items)
  have "\<forall>d \<in> set (sorted_by_name L (filter is_dir items)). \<forall>dir prefix st.
      \<exists>st'. build_tree L cfg root dir d prefix st = Inr st'"
    using Dir by (auto simp: sorted_by_name_def)
  from dirs_loop_walkable [OF this] obtain st1 where
    "dirs_loop L cfg root dir prefix (sorted_by_name L (filter is_dir items)) st = Inr st1"
    by blast
  moreover from Dir.prems have "first_stat_error items = None"
    by (simp add: first_stat_error_None)
  ultimately show ?case
    by (simp add: build_tree_Dir)
qed (simp_all add: build_tree.simps)

lemma document_lines_walkable:
  assumes "walkable root"
  shows "\<exists>res. document_lines L cfg directory_path root = Inr res"
proof -
  from build_tree_walkable [OF assms] obtain st' where
    b: "build_tree L cfg directory_path directory_path root []
        \<lparr>result = preamble directory_path, file_contents = []\<rparr> = Inr st'"
    by blast
  from build_tree_inv [OF resolvable_inv _ b] have "resolvable L (file_contents st')"
    by (simp add: resolvable_def)
  from emit_contents_resolvable [OF this] show ?thesis
    by (simp add: document_lines_def b)
qed

section \<open>The order of the tree section\<close>

lemma files_loop_lines:
  "result (files_loop L cfg root dir prefix fs st) =
     result st @ map (listed_file_line L root dir prefix) (filter (listed_file L cfg dir) fs)"
proof (induction fs arbitrary: st)
  case Nil
  then show ?case by simp
next
  case (Cons f fs)
  show ?case
  proof (cases "listed_file L cfg dir f")
    case True
    then show ?thesis
      by (simp add: Cons.IH Let_def listed_file_def listed_file_line_def append_line_def)
  next
    case False
    then show ?thesis
      by (auto simp: Cons.IH listed_file_def)
  qed
qed

lemma dirs_loop_lines:
  "\<forall>d \<in> set ds. \<forall>dir prefix st st'. build_tree L cfg root dir d prefix st = Inr st' \<longrightarrow>
       result st' = result st @ tree_listing L cfg root dir prefix d \<Longrightarrow>
   dirs_loop L cfg root dir prefix ds st = Inr st' \<Longrightarrow>
   result st' = result st @
     concat (map (\<lambda>sub. folder_line prefix (path_name (dir @ [entry_name sub])) #
                   tree_listing L cfg root (dir @ [entry_name sub]) (prefix @ indent) sub)
              (filter (\<lambda>sub. \<not> should_ignore L cfg (dir @ [entry_name sub])) ds))"
proof (induction ds arbitrary: st)
  case Nil
  then show ?case by simp
next
  case (Cons d ds)
  show ?case
  proof (cases "should_ignore L cfg (dir @ [entry_name d])")
    case True
    with Cons show ?thesis by simp
  next
    case False
    with Cons.prems(2) obtain st1 where
      b: "build_tree L cfg root (dir @ [entry_name d]) d (prefix @ indent)
            (append_line (folder_line prefix (path_name (dir @ [entry_name d]))) st) = Inr st1"
      and r: "dirs_loop L cfg root dir prefix ds st1 = Inr st'"
      by (auto simp: Let_def split: sum.splits)
    from b Cons.prems(1) have "result st1 =
        result st @ folder_line prefix (path_name (dir @ [entry_name d])) #
          tree_listing L cfg root (dir @ [entry_name d]) (prefix @ indent) d"
      by (simp add: append_line_def)
    moreover from r Cons.IH Cons.prems(1) have "result st' = result st1 @
      concat (map (\<lambda>sub. folder_line prefix (path_name (dir @ [entry_name sub])) #
                   tree_listing L cfg root (dir @ [entry_name sub]) (prefix @ indent) sub)
              (filter (\<lambda>sub. \<not> should_ignore L cfg (dir @ [entry_name sub])) ds))"
      by simp
    ultimately show ?thesis using False by simp
  qed
qed

lemma build_tree_lines:
  "build_tree L cfg root dir d prefix st = Inr st' \<Longrightarrow>
   result st' = result st @ tree_listing L cfg root dir prefix d"
proof (induction d arbitrary: dir prefix st st')
  case (Dir n items)
  from Dir.prems(1) obtain st1 where
    d: "dirs_loop L cfg root dir prefix (sorted_by_name L (filter is_dir items)) st = Inr st1"
    and f: "st' = files_loop L cfg root dir prefix (sorted_by_name L (filter is_file items)) st1"
    by (auto simp: build_tree_Dir split: sum.splits option.splits)
  have "\<forall>d \<in> set (sorted_by_name L (filter is_dir items)). \<forall>dir prefix st st'.
       build_tree L cfg root dir d prefix st = Inr st' \<longrightarrow>
       result st' = result st @ tree_listing L cfg root dir prefix d"
    using Dir.IH by (auto simp: sorted_by_name_def)
  from dirs_loop_lines [OF this d] f show ?case
    by (simp add: files_loop_lines)
next
  case (DeniedDir n)
  then show ?case by (auto simp: build_tree.simps append_line_def)
qed (simp_all add: build_tree.simps)

text \<open>
  C4: what the builder appends for a directory is, first, for each subdirectory that is not
  ignored its folder line followed at once by the whole listing of that subdirectory, then
  the lines of the files that are neither ignored nor without a language; the
  subdirectories and the files are each taken in the order of their lowercased names,
  entries whose lowercased names are equal keep the order in which the directory listed
  them, and sorting neither drops nor adds an entry.
\<close>

theorem tree_order:
  "(build_tree L cfg directory_path directory (Dir n items) prefix st = Inr st' \<longrightarrow>
      result st' = result st @
        concat (map (\<lambda>sub. folder_line prefix (path_name (directory @ [entry_name sub])) #
                      tree_listing L cfg directory_path (directory @ [entry_name sub])
                        (prefix @ indent) sub)
                 (filter (\<lambda>sub. \<not> should_ignore L cfg (directory @ [entry_name sub]))
                    (sorted_by_name L (filter is_dir items)))) @
        map (listed_file_line L directory_path directory prefix)
          (filter (listed_file L cfg directory) (sorted_by_name L (filter is_file items)))) \<and>
   (build_tree L cfg directory_path directory d prefix st = Inr st' \<longrightarrow>
      result st' = result st @ tree_listing L cfg directory_path directory prefix d) \<and>
   sorted (map (\<lambda>x. py_lower L (entry_name x)) (sorted_by_name L (filter is_dir items))) \<and>
   sorted (map (\<lambda>x. py_lower L (entry_name x)) (sorted_by_name L (filter is_file items))) \<and>
   mset (sorted_by_name L (filter is_dir items)) = mset (filter is_dir items) \<and>
   mset (sorted_by_name L (filter is_file items)) = mset (filter is_file items) \<and>
   filter (\<lambda>x. py_lower L (entry_name x) = k) (sorted_by_name L (filter is_dir items)) =
     filter (\<lambda>x. py_lower L (entry_name x) = k) (filter is_dir items) \<and>
   filter (\<lambda>x. py_lower L (entry_name x) = k) (sorted_by_name L (filter is_file items)) =
     filter (\<lambda>x. py_lower L (entry_name x) = k) (filter is_file items)"
  using build_tree_lines [of L cfg directory_path directory "Dir n items" prefix st st']
    build_tree_lines [of L cfg directory_path directory d prefix st st']
    sort_key_stable [of "\<lambda>x. py_lower L (entry_name x)" k "filter is_dir items"]
    sort_key_stable [of "\<lambda>x. py_lower L (entry_name x)" k "filter is_file items"]
  by (simp add: sorted_by_name_def)

text \<open>
  On the small repository the listing is the one computed by the builder. In a directory
  that lists U+00E0 \<open>.py\<close>, U+00C9 \<open>.py\<close> and \<open>z.py\<close> in this order, the line of \<open>z.py\<close> comes
  first and the line of U+00E0 \<open>.py\<close> before that of U+00C9 \<open>.py\<close>: the lowercased names are
  compared code point by code point, \<open>z\<close> is below U+00E0, and U+00E0 is below U+00E9.
\<close>

theorem tree_order_witness:
  "build_tree example_lib example_cfg [ascii ''repo''] [ascii ''repo''] example_root []
       \<lparr>result = [], file_contents = []\<rparr> = Inr example_state \<and>
   tree_listing example_lib example_cfg [ascii ''repo''] [ascii ''repo''] [] example_root =
     result example_state \<and>
   build_tree example_lib example_cfg [ascii ''repo''] [ascii ''repo''] accent_root []
       \<lparr>result = [], file_contents = []\<rparr> = Inr accent_state \<and>
   result accent_state =
     map (listed_file_line example_lib [ascii ''repo''] [ascii ''repo''] [])
       (filter (listed_file example_lib example_cfg [ascii ''repo''])
          (sorted_by_name example_lib
             [File (0xE0 # ascii ''.py'') (Inr []), File (0xC9 # ascii ''.py'') (Inr []),
              File (ascii ''z.py'') (Inr [])])) \<and>
   sorted_by_name example_lib
       [File (0xE0 # ascii ''.py'') (Inr []), File (0xC9 # ascii ''.py'') (Inr []),
        File (ascii ''z.py'') (Inr [])] =
     [File (ascii ''z.py'') (Inr []), File (0xE0 # ascii ''.py'') (Inr []),
      File (0xC9 # ascii ''.py'') (Inr [])] \<and>
   tree_listing example_lib example_cfg [ascii ''repo''] [ascii ''repo''] [] accent_root =
     [file_line [] (ascii ''z.py'') (ascii ''z-py''),
      file_line [] (0xE0 # ascii ''.py'') (ascii ''py''),
      file_line [] (0xC9 # ascii ''.py'') (ascii ''py'')]"
proof -
  let ?items = "[File (0xE0 # ascii ''.py'') (Inr []), File (0xC9 # ascii ''.py'') (Inr []),
        File (ascii ''z.py'') (Inr [])]"
  have a: "tree_listing example_lib example_cfg [ascii ''repo''] [ascii ''repo''] [] example_root =
     result example_state"
    using tree_order [of example_lib example_cfg "[ascii ''repo'']" "[ascii ''repo'']"
      "ascii ''repo''" "[]" "[]" "\<lparr>result = [], file_contents = []\<rparr>" example_state
      example_root "[]"]
    by (simp add: example_walk)
  have w: "build_tree example_lib example_cfg [ascii ''repo''] [ascii ''repo'']
      (Dir (ascii ''repo'') ?items) [] \<lparr>result = [], file_contents = []\<rparr> = Inr accent_state"
    using accent_walk by (simp add: accent_root_def)
  note t = tree_order [of example_lib example_cfg "[ascii ''repo'']" "[ascii ''repo'']"
      "ascii ''repo''" ?items "[]" "\<lparr>result = [], file_contents = []\<rparr>" accent_state
      accent_root "[]"]
  from t [THEN conjunct1] w have b: "result accent_state =
     map (listed_file_line example_lib [ascii ''repo''] [ascii ''repo''] [])
       (filter (listed_file example_lib example_cfg [ascii ''repo''])
          (sorted_by_name example_lib ?items))"
    by (simp add: sorted_by_name_def)
  from t [THEN conjunct2, THEN conjunct1] accent_walk
  have "tree_listing example_lib example_cfg [ascii ''repo''] [ascii ''repo''] [] accent_root =
     result accent_state"
    by simp
  then have c: "tree_listing example_lib example_cfg [ascii ''repo''] [ascii ''repo''] [] accent_root =
     [file_line [] (ascii ''z.py'') (ascii ''z-py''),
      file_line [] (0xE0 # ascii ''.py'') (ascii ''py''),
      file_line [] (0xC9 # ascii ''.py'') (ascii ''py'')]"
    by (simp add: accent_state_def)
  have d: "sorted_by_name example_lib ?items =
     [File (ascii ''z.py'') (Inr []), File (0xE0 # ascii ''.py'') (Inr []),
      File (0xC9 # ascii ''.py'') (Inr [])]"
    by code_simp
  from example_walk a accent_walk b c d show ?thesis by blast
qed

section \<open>Entries the builder passes over leave no trace\<close>

lemma prune_name [simp]: "entry_name (prune keep e) = entry_name e"
  by (cases e) auto

lemma prune_is_dir [simp]: "is_dir (prune keep e) = is_dir e"
  by (cases e) auto

lemma prune_is_file [simp]: "is_file (prune keep e) = is_file e"
  by (cases e) auto

lemma prune_stat_error [simp]: "stat_error (prune keep e) = stat_error e"
  by (cases e) auto

lemma first_stat_error_prune:
  "\<forall>e. \<not> keep e \<longrightarrow> stat_error e = None \<Longrightarrow>
   first_stat_error (map (prune keep) (filter keep items)) = first_stat_error items"
  by (induction items) (auto split: option.splits)

lemma prune_cong:
  "classifiable d \<Longrightarrow> \<forall>e. stat_error e = None \<longrightarrow> keep e = keep' e \<Longrightarrow>
   prune keep d = prune keep' d"
proof (induction d)
  case (Dir n items)
  then have "filter keep items = filter keep' items"
    by (auto intro: filter_cong)
  moreover from Dir have "map (prune keep) (filter keep' items) = map (prune keep') (filter keep' items)"
    by (auto intro: map_cong)
  ultimately show ?case by simp
qed simp_all

lemma prune_file: "is_file e \<Longrightarrow> prune keep e = e"
  by (cases e) auto

lemma insort_key_map:
  "(\<And>x. k (g x) = k x) \<Longrightarrow> insort_key k (g x) (map g xs) = map g (insort_key k x xs)"
  by (induction xs) auto

lemma sort_key_map:
  "(\<And>x. k (g x) = k x) \<Longrightarrow> sort_key k (map g xs) = map g (sort_key k xs)"
  by (induction xs) (auto simp: insort_key_map)

lemma sorted_by_name_prune:
  "sorted_by_name L (filter P (map (prune keep) (filter keep items))) =
   map (prune keep) (filter keep (sorted_by_name L (filter (\<lambda>e. P (prune keep e)) items)))"
proof -
  have "filter P (map (prune keep) (filter keep items)) =
      map (prune keep) (filter keep (filter (\<lambda>e. P (prune keep e)) items))"
    by (induction items) auto
  then show ?thesis
    by (simp add: sorted_by_name_def sort_key_map filter_sort)
qed

lemma path_name_child:
  "path_name (dir @ [n]) = n \<or>
   (dir = [] \<and> (n = ascii ''/'' \<or> n = ascii ''//'') \<and> path_name (dir @ [n]) = [])"
  by (cases dir) (auto simp: path_name_def path_root_def)

lemma hidden_child: "hidden_match (path_name (dir @ [n])) = hidden_match n"
  using path_name_child [of dir n] by (auto simp: hidden_match_def ascii_def)

lemma suffix_child: "suffix (dir @ [n]) = name_suffix n"
  using path_name_child [of dir n]
  by (auto simp: suffix_def name_suffix_def rfind_def ascii_def)

lemma language_child:
  "determine_file_language L (dir @ [n]) = map_of extension_map (py_lower L (name_suffix n))"
  by (simp add: determine_file_language_def suffix_child)

lemma files_loop_prune:
  assumes "skipped L cfg (\<lambda>e. \<not> keep e)"
  shows "\<forall>f \<in> set fs. is_file f \<Longrightarrow>
    files_loop L cfg root dir prefix (filter keep fs) st = files_loop L cfg root dir prefix fs st"
proof (induction fs arbitrary: st)
  case Nil
  then show ?case by simp
next
  case (Cons f fs)
  show ?case
  proof (cases "keep f")
    case True
    with Cons show ?thesis by (simp add: Let_def)
  next
    case False
    with assms Cons.prems have "should_ignore L cfg (dir @ [entry_name f]) \<or>
        determine_file_language L (dir @ [entry_name f]) = None"
      by (simp add: skipped_def)
    with False Cons show ?thesis by auto
  qed
qed

lemma dirs_loop_prune:
  assumes "skipped L cfg (\<lambda>e. \<not> keep e)"
  shows "\<forall>d \<in> set ds. is_dir d \<and> (\<forall>dir prefix st.
       build_tree L cfg root dir (prune keep d) prefix st = build_tree L cfg root dir d prefix st) \<Longrightarrow>
    dirs_loop L cfg root dir prefix (map (prune keep) (filter keep ds)) st =
      dirs_loop L cfg root dir prefix ds st"
proof (induction ds arbitrary: st)
  case Nil
  then show ?case by simp
next
  case (Cons d ds)
  show ?case
  proof (cases "keep d")
    case True
    with Cons show ?thesis by (simp add: Let_def split: sum.splits)
  next
    case False
    with assms Cons.prems have "should_ignore L cfg (dir @ [entry_name d])"
      by (simp add: skipped_def)
    with False Cons show ?thesis by simp
  qed
qed

lemma build_tree_prune:
  assumes "skipped L cfg (\<lambda>e. \<not> keep e)"
  shows "build_tree L cfg root dir (prune keep d) prefix st = build_tree L cfg root dir d prefix st"
proof (induction d arbitrary: dir prefix st)
  case (Dir n items)
  have d: "dirs_loop L cfg root dir prefix
        (map (prune keep) (filter keep (sorted_by_name L (filter is_dir items)))) st =
      dirs_loop L cfg root dir prefix (sorted_by_name L (filter is_dir items)) st" for st
    by (rule dirs_loop_prune [OF assms]) (auto simp: sorted_by_name_def Dir.IH)
  have "map (prune keep) (filter keep (sorted_by_name L (filter is_file items))) =
      filter keep (sorted_by_name L (filter is_file items))"
    by (rule map_idI) (auto simp: sorted_by_name_def prune_file)
  moreover have "files_loop L cfg root dir prefix (filter keep (sorted_by_name L (filter is_file items))) st =
      files_loop L cfg root dir prefix (sorted_by_name L (filter is_file items)) st" for st
    by (rule files_loop_prune [OF assms]) (auto simp: sorted_by_name_def)
  moreover from assms have "first_stat_error (map (prune keep) (filter keep items)) =
      first_stat_error items"
    by (simp add: first_stat_error_prune skipped_def)
  ultimately show ?case
    by (simp add: build_tree_Dir sorted_by_name_prune d split: sum.splits option.splits)
qed simp_all

lemma document_lines_prune:
  assumes "skipped L cfg (\<lambda>e. \<not> keep e)"
  shows "document_lines L cfg p (prune keep root) = document_lines L cfg p root"
  by (simp add: document_lines_def build_tree_prune [OF assms])

lemma generate_prune:
  assumes "skipped L cfg (\<lambda>e. \<not> keep e)"
  shows "generate_repo_structure_to_markdown L can_open p (prune keep root) out cfg =
    generate_repo_structure_to_markdown L can_open p root out cfg"
  by (simp add: generate_repo_structure_to_markdown_def document_lines_prune [OF assms])

lemma file_not_dir: "is_file e \<Longrightarrow> \<not> is_dir e"
  by (cases e) auto

lemma file_stat: "is_file e \<Longrightarrow> stat_error e = None"
  by (cases e) auto

lemma skipped_unsupported: "skipped L cfg (\<lambda>e. \<not> \<not> unsupported L e)"
  by (auto simp: skipped_def unsupported_def language_child dest: file_not_dir file_stat)

lemma skipped_hidden:
  "ignore_hidden cfg \<Longrightarrow> skipped L cfg (\<lambda>e. \<not> \<not> (hidden e \<and> stat_error e = None))"
  by (simp add: skipped_def hidden_def should_ignore_def hidden_child)

section \<open>The lines of the tree section\<close>

lemma spaces_indent: "spaces k @ indent = spaces (k + 2)"
  by (simp add: spaces_def indent_def ascii_def replicate_app_Cons_same)

lemma tree_listing_emitted:
  "l \<in> set (tree_listing L cfg root dir (spaces k) d) \<Longrightarrow> emitted_line L cfg root l"
proof (induction d arbitrary: dir k l)
  case (Dir n items)
  from Dir.prems consider
    (a) sub where "sub \<in> set items" "\<not> should_ignore L cfg (dir @ [entry_name sub])"
      "l = folder_line (spaces k) (path_name (dir @ [entry_name sub]))"
  | (b) sub where "sub \<in> set items"
      "l \<in> set (tree_listing L cfg root (dir @ [entry_name sub]) (spaces k @ indent) sub)"
  | (c) f where "listed_file L cfg dir f" "l = listed_file_line L root dir (spaces k) f"
    by (auto simp: sorted_by_name_def)
  then show ?case
  proof cases
    case a
    then show ?thesis unfolding emitted_line_def by blast
  next
    case b
    then show ?thesis using Dir.IH [of sub l "dir @ [entry_name sub]" "k + 2"]
      by (simp add: spaces_indent)
  next
    case c
    then show ?thesis unfolding emitted_line_def by blast
  qed
next
  case (DeniedDir n)
  then show ?case by (auto simp: emitted_line_def)
qed simp_all

lemma body_spaces:
  "line_body (spaces j @ ch CHR '' '' # ch CHR '' '' # ch CHR ''-'' # xs) = ch CHR ''-'' # xs"
  by (induction j) (simp_all add: line_body_def spaces_def)

lemma body_denied:
  "line_body (denied_line (spaces j)) = ascii ''- '' @ WARNING_SYMBOL @ ascii '' [Permission denied]''"
  using body_spaces [of j] by (simp add: denied_line_def indent_def ascii_def)

lemma body_folder:
  "line_body (folder_line (spaces j) n) = ascii ''- '' @ FOLDER_SYMBOL @ ascii '' '' @ n"
  using body_spaces [of j] by (simp add: folder_line_def indent_def ascii_def)

lemma body_file:
  "line_body (file_line (spaces j) n a) =
     ascii ''- '' @ FILE_SYMBOL @ ascii '' ['' @ n @ ascii ''](#'' @ a @ ascii '')''"
  using body_spaces [of j] by (simp add: file_line_def indent_def ascii_def)

lemma file_not_denied: "file_line (spaces k) n a \<noteq> denied_line (spaces j)"
proof
  assume "file_line (spaces k) n a = denied_line (spaces j)"
  then have "line_body (file_line (spaces k) n a) = line_body (denied_line (spaces j))" by simp
  then show False
    by (simp add: body_file body_denied FILE_SYMBOL_def WARNING_SYMBOL_def ascii_def)
qed

lemma file_not_folder: "file_line (spaces k) n a \<noteq> folder_line (spaces j) m"
proof
  assume "file_line (spaces k) n a = folder_line (spaces j) m"
  then have "line_body (file_line (spaces k) n a) = line_body (folder_line (spaces j) m)" by simp
  then show False
    by (simp add: body_file body_folder FILE_SYMBOL_def FOLDER_SYMBOL_def ascii_def)
qed

lemma folder_not_denied: "folder_line (spaces k) n \<noteq> denied_line (spaces j)"
proof
  assume "folder_line (spaces k) n = denied_line (spaces j)"
  then have "line_body (folder_line (spaces k) n) = line_body (denied_line (spaces j))" by simp
  then show False
    by (simp add: body_folder body_denied FOLDER_SYMBOL_def WARNING_SYMBOL_def ascii_def)
qed

lemma folder_name: "folder_line (spaces k) n = folder_line (spaces j) m \<Longrightarrow> n = m"
proof -
  assume "folder_line (spaces k) n = folder_line (spaces j) m"
  then have "line_body (folder_line (spaces k) n) = line_body (folder_line (spaces j) m)" by simp
  then show ?thesis by (simp add: body_folder)
qed

lemma last_split_unique:
  "x \<notin> set ys \<Longrightarrow> x \<notin> set ys' \<Longrightarrow> xs @ x # ys = xs' @ x # ys' \<Longrightarrow> xs = xs'"
proof (induction xs arbitrary: xs')
  case Nil
  then show ?case by (cases xs') auto
next
  case (Cons a xs)
  then show ?case by (cases xs') auto
qed

lemma file_name:
  assumes "file_line (spaces k) n a = file_line (spaces j) m b"
    and "ch CHR '']'' \<notin> set a" and "ch CHR '']'' \<notin> set b"
  shows "n = m"
proof -
  from assms(1) have "line_body (file_line (spaces k) n a) = line_body (file_line (spaces j) m b)"
    by simp
  then have "n @ ch CHR '']'' # (ascii ''(#'' @ a @ ascii '')'') =
      m @ ch CHR '']'' # (ascii ''(#'' @ b @ ascii '')'')"
    by (simp add: body_file ascii_def FILE_SYMBOL_def)
  moreover have "ch CHR '']'' \<notin> set (ascii ''(#'' @ a @ ascii '')'')"
    "ch CHR '']'' \<notin> set (ascii ''(#'' @ b @ ascii '')'')"
    using assms(2,3) by (simp_all add: ascii_def)
  ultimately show ?thesis by (rule last_split_unique [rotated 2])
qed

lemma anchor_no_bracket: "ch CHR '']'' \<notin> set (create_anchor_id L r)"
proof
  assume "ch CHR '']'' \<in> set (create_anchor_id L r)"
  from anchor_chars [OF this] show False
    by (simp add: is_lower_def is_upper_def is_digit_def)
qed

lemma unsupported_line_absent:
  assumes "map_of extension_map (py_lower L (name_suffix n)) = None"
  shows "file_line (spaces k) n (create_anchor_id L r) \<notin> set (tree_listing L cfg root dir (spaces j) d)"
proof
  assume "file_line (spaces k) n (create_anchor_id L r) \<in> set (tree_listing L cfg root dir (spaces j) d)"
  from tree_listing_emitted [OF this] obtain i dir' f where
    l: "file_line (spaces k) n (create_anchor_id L r) = listed_file_line L root dir' (spaces i) f"
    and f: "listed_file L cfg dir' f"
    unfolding emitted_line_def using file_not_denied file_not_folder by blast
  from l have "n = path_name (dir' @ [entry_name f])"
    unfolding listed_file_line_def by (rule file_name) (rule anchor_no_bracket)+
  with assms f show False
    by (simp add: listed_file_def determine_file_language_def suffix_def)
qed

lemma hidden_lines_absent:
  assumes "ignore_hidden cfg" and "hidden_match n"
  shows "folder_line (spaces k) n \<notin> set (tree_listing L cfg root dir (spaces j) d) \<and>
    file_line (spaces k) n (create_anchor_id L r) \<notin> set (tree_listing L cfg root dir (spaces j) d)"
proof -
  have v: "\<not> hidden_match (path_name p)" if "\<not> should_ignore L cfg p" for p
    using that assms(1) by (auto simp: should_ignore_def)
  have "folder_line (spaces k) n \<notin> set (tree_listing L cfg root dir (spaces j) d)"
  proof
    assume "folder_line (spaces k) n \<in> set (tree_listing L cfg root dir (spaces j) d)"
    from tree_listing_emitted [OF this] obtain i dir' e where
      l: "folder_line (spaces k) n = folder_line (spaces i) (path_name (dir' @ [entry_name e]))"
      and e: "\<not> should_ignore L cfg (dir' @ [entry_name e])"
      unfolding emitted_line_def listed_file_line_def
      using folder_not_denied file_not_folder by metis
    from folder_name [OF l] v [OF e] assms(2) show False by simp
  qed
  moreover have "file_line (spaces k) n (create_anchor_id L r) \<notin> set (tree_listing L cfg root dir (spaces j) d)"
  proof
    assume "file_line (spaces k) n (create_anchor_id L r) \<in> set (tree_listing L cfg root dir (spaces j) d)"
    from tree_listing_emitted [OF this] obtain i dir' f where
      l: "file_line (spaces k) n (create_anchor_id L r) = listed_file_line L root dir' (spaces i) f"
      and f: "listed_file L cfg dir' f"
      unfolding emitted_line_def using file_not_denied file_not_folder by blast
    from l have "n = path_name (dir' @ [entry_name f])"
      unfolding listed_file_line_def by (rule file_name) (rule anchor_no_bracket)+
    with assms(2) v [of "dir' @ [entry_name f]"] f show False
      by (simp add: listed_file_def)
  qed
  ultimately show ?thesis ..
qed

section \<open>Unsupported files\<close>

text \<open>
  C2: for every configuration, the whole call gives the same outcome on the tree and on the
  tree without its files of unsupported extension; no line the builder appends is the file
  line of a name with an unsupported extension; and every file the builder records has a
  language, so no unsupported file reaches the content section.
\<close>

theorem unsupported_files_absent:
  "generate_repo_structure_to_markdown L can_open directory_path
       (prune (\<lambda>e. \<not> unsupported L e) root) output_file cfg =
     generate_repo_structure_to_markdown L can_open directory_path root output_file cfg \<and>
   (map_of extension_map (py_lower L (name_suffix n)) = None \<and>
    build_tree L cfg directory_path directory d (spaces j) \<lparr>result = res, file_contents = []\<rparr> =
      Inr st \<longrightarrow>
      (\<exists>ls. result st = res @ ls \<and> file_line (spaces k) n (create_anchor_id L r) \<notin> set ls) \<and>
      resolvable L (file_contents st))"
proof (intro conjI impI)
  show "generate_repo_structure_to_markdown L can_open directory_path
       (prune (\<lambda>e. \<not> unsupported L e) root) output_file cfg =
     generate_repo_structure_to_markdown L can_open directory_path root output_file cfg"
    by (rule generate_prune) (rule skipped_unsupported)
next
  assume a: "map_of extension_map (py_lower L (name_suffix n)) = None \<and>
    build_tree L cfg directory_path directory d (spaces j) \<lparr>result = res, file_contents = []\<rparr> =
      Inr st"
  then have "result st = res @ tree_listing L cfg directory_path directory (spaces j) d"
    using build_tree_lines by fastforce
  with a unsupported_line_absent
  show "\<exists>ls. result st = res @ ls \<and> file_line (spaces k) n (create_anchor_id L r) \<notin> set ls"
    by blast
  from a build_tree_inv [OF resolvable_inv] show "resolvable L (file_contents st)"
    by (fastforce simp: resolvable_def)
qed

theorem unsupported_files_absent_witness:
  "map_of extension_map (py_lower example_lib (name_suffix (ascii ''c.txt''))) = None \<and>
   generate_repo_structure_to_markdown example_lib (\<lambda>f. True) [ascii ''repo'']
       (prune (\<lambda>e. \<not> unsupported example_lib e) example_root) None example_cfg =
     generate_repo_structure_to_markdown example_lib (\<lambda>f. True) [ascii ''repo''] example_root
       None example_cfg \<and>
   file_line (spaces 2) (ascii ''c.txt'') (create_anchor_id example_lib (ascii ''a/c.txt''))
     \<notin> set (result example_state) \<and>
   resolvable example_lib (file_contents example_state)"
proof -
  have u: "map_of extension_map (py_lower example_lib (name_suffix (ascii ''c.txt''))) = None"
    by code_simp
  have w: "build_tree example_lib example_cfg [ascii ''repo''] [ascii ''repo''] example_root
      (spaces 0) \<lparr>result = [], file_contents = []\<rparr> = Inr example_state"
    by (simp add: spaces_def example_walk)
  from unsupported_files_absent [where L = example_lib and can_open = "\<lambda>f. True"
      and directory_path = "[ascii ''repo'']" and root = example_root and output_file = None
      and cfg = example_cfg and n = "ascii ''c.txt''" and directory = "[ascii ''repo'']"
      and d = example_root and j = 0 and res = "[]" and st = example_state and k = 2
      and r = "ascii ''a/c.txt''"] u w
  show ?thesis by simp
qed

section \<open>Hidden entries\<close>

lemma visible_child:
  "visible_dir root dir \<Longrightarrow> \<not> hidden_match n \<Longrightarrow> visible_dir root (dir @ [n])"
  by (auto simp: visible_dir_def)

lemma visible_update:
  "visible_records root recs \<Longrightarrow> visible_dir root fp \<Longrightarrow>
   visible_records root (AList.update k (a, (fp, f), rel) recs)"
  using set_update_subset [of k "(a, (fp, f), rel)" recs]
  by (fastforce simp: visible_records_def)

lemma files_loop_visible:
  assumes "ignore_hidden cfg" and "visible_dir root dir"
  shows "visible_records root (file_contents st) \<Longrightarrow>
    visible_records root (file_contents (files_loop L cfg root dir prefix fs st))"
proof (induction fs arbitrary: st)
  case Nil
  then show ?case by simp
next
  case (Cons f fs)
  show ?case
  proof (cases "should_ignore L cfg (dir @ [entry_name f]) \<or>
      determine_file_language L (dir @ [entry_name f]) = None")
    case True
    with Cons show ?thesis by auto
  next
    case False
    with assms(1) have "\<not> hidden_match (entry_name f)"
      by (auto simp: should_ignore_def hidden_child)
    with assms(2) have "visible_dir root (dir @ [entry_name f])"
      by (simp add: visible_child)
    with False Cons.prems show ?thesis
      by (auto simp: Let_def append_line_def intro!: Cons.IH visible_update)
  qed
qed

lemma visible_inv:
  assumes "ignore_hidden cfg"
  shows "walk_inv (\<lambda>st. visible_records root (file_contents st)) (visible_dir root) L cfg root"
  unfolding walk_inv_def
proof (intro conjI allI impI)
  fix l and st :: walk
  assume "visible_records root (file_contents st)"
  then show "visible_records root (file_contents (append_line l st))"
    by (simp add: append_line_def)
next
  fix dir prefix fs and st :: walk
  assume "visible_dir root dir \<and> visible_records root (file_contents st)"
  then show "visible_records root (file_contents (files_loop L cfg root dir prefix fs st))"
    using files_loop_visible [OF assms] by blast
next
  fix dir n
  assume a: "visible_dir root dir \<and> \<not> should_ignore L cfg (dir @ [n])"
  with assms have "\<not> hidden_match n"
    by (auto simp: should_ignore_def hidden_child)
  with a show "visible_dir root (dir @ [n])"
    by (simp add: visible_child)
qed

text \<open>
  C3: with \<open>ignore_hidden\<close> set, the whole call gives the same outcome on the tree and on the
  tree without the entries whose name begins with a dot, with everything below them; no
  line the builder appends is the folder line or the file line of such a name; and no
  recorded file has a part beginning with a dot on its path below the root. The builder
  asks \<open>is_dir\<close> and \<open>is_file\<close> of every listed entry before it filters any, so an entry for
  which they raise ends the run whatever its name: the entries taken away are the dot
  entries that can be classified, which are all the dot entries of a tree whose entries
  can all be classified.
\<close>

theorem hidden_entries_absent:
  assumes "ignore_hidden cfg"
  shows
    "generate_repo_structure_to_markdown L can_open directory_path
         (prune (\<lambda>e. \<not> (hidden e \<and> stat_error e = None)) root) output_file cfg =
       generate_repo_structure_to_markdown L can_open directory_path root output_file cfg \<and>
     (classifiable root \<longrightarrow>
        generate_repo_structure_to_markdown L can_open directory_path
            (prune (\<lambda>e. \<not> hidden e) root) output_file cfg =
          generate_repo_structure_to_markdown L can_open directory_path root output_file cfg) \<and>
     (hidden_match n \<and>
      build_tree L cfg directory_path directory d (spaces j) \<lparr>result = res, file_contents = []\<rparr> =
        Inr st \<longrightarrow>
        (\<exists>ls. result st = res @ ls \<and> folder_line (spaces k) n \<notin> set ls \<and>
           file_line (spaces k) n (create_anchor_id L r) \<notin> set ls)) \<and>
     (build_tree L cfg directory_path directory_path root prefix
          \<lparr>result = res, file_contents = []\<rparr> = Inr st' \<longrightarrow>
        visible_records directory_path (file_contents st'))"
proof (intro conjI impI)
  show g: "generate_repo_structure_to_markdown L can_open directory_path
         (prune (\<lambda>e. \<not> (hidden e \<and> stat_error e = None)) root) output_file cfg =
       generate_repo_structure_to_markdown L can_open directory_path root output_file cfg"
    by (rule generate_prune) (rule skipped_hidden [OF assms])
  assume "classifiable root"
  then have "prune (\<lambda>e. \<not> hidden e) root = prune (\<lambda>e. \<not> (hidden e \<and> stat_error e = None)) root"
    by (rule prune_cong) simp
  with g show "generate_repo_structure_to_markdown L can_open directory_path
            (prune (\<lambda>e. \<not> hidden e) root) output_file cfg =
          generate_repo_structure_to_markdown L can_open directory_path root output_file cfg"
    by simp
next
  assume a: "hidden_match n \<and>
      build_tree L cfg directory_path directory d (spaces j) \<lparr>result = res, file_contents = []\<rparr> =
        Inr st"
  then have "result st = res @ tree_listing L cfg directory_path directory (spaces j) d"
    using build_tree_lines by fastforce
  with a hidden_lines_absent [OF assms]
  show "\<exists>ls. result st = res @ ls \<and> folder_line (spaces k) n \<notin> set ls \<and>
           file_line (spaces k) n (create_anchor_id L r) \<notin> set ls"
    by blast
next
  assume b: "build_tree L cfg directory_path directory_path root prefix
          \<lparr>result = res, file_contents = []\<rparr> = Inr st'"
  have "visible_dir directory_path directory_path"
    by (simp add: visible_dir_def)
  from build_tree_inv [OF visible_inv [OF assms] this b]
  show "visible_records directory_path (file_contents st')"
    by (simp add: visible_records_def)
qed

theorem hidden_entries_absent_witness:
  "ignore_hidden example_cfg \<and> hidden_match (ascii ''.git'') \<and> classifiable example_root \<and>
   generate_repo_structure_to_markdown example_lib (\<lambda>f. True) [ascii ''repo'']
       (prune (\<lambda>e. \<not> (hidden e \<and> stat_error e = None)) example_root) None example_cfg =
     generate_repo_structure_to_markdown example_lib (\<lambda>f. True) [ascii ''repo''] example_root
       None example_cfg \<and>
   generate_repo_structure_to_markdown example_lib (\<lambda>f. True) [ascii ''repo'']
       (prune (\<lambda>e. \<not> hidden e) example_root) None example_cfg =
     generate_repo_structure_to_markdown example_lib (\<lambda>f. True) [ascii ''repo''] example_root
       None example_cfg \<and>
   folder_line (spaces 2) (ascii ''.git'') \<notin> set (result example_state) \<and>
   file_line (spaces 2) (ascii ''.git'') (create_anchor_id example_lib (ascii ''a/.git''))
     \<notin> set (result example_state) \<and>
   visible_records [ascii ''repo''] (file_contents example_state)"
proof -
  have i: "ignore_hidden example_cfg"
    by (simp add: example_cfg_def)
  have h: "hidden_match (ascii ''.git'')"
    by (simp add: hidden_match_def ascii_def)
  have c: "classifiable example_root"
    by (simp add: example_root_def)
  have w: "build_tree example_lib example_cfg [ascii ''repo''] [ascii ''repo''] example_root
      (spaces 0) \<lparr>result = [], file_contents = []\<rparr> = Inr example_state"
    by (simp add: spaces_def example_walk)
  have w': "build_tree example_lib example_cfg [ascii ''repo''] [ascii ''repo''] example_root []
      \<lparr>result = [], file_contents = []\<rparr> = Inr example_state"
    by (rule example_walk)
  from hidden_entries_absent [OF i, where L = example_lib and can_open = "\<lambda>f. True"
      and directory_path = "[ascii ''repo'']" and root = example_root and output_file = None
      and n = "ascii ''.git''" and directory = "[ascii ''repo'']" and d = example_root
      and j = 0 and res = "[]" and st = example_state and k = 2 and r = "ascii ''a/.git''"
      and prefix = "[]" and st' = example_state]
    i h c w w'
  show ?thesis by simp
qed

section \<open>Numbered lines of a file\<close>

lemma split_char_lines: "x \<in> set (split_char sep s) \<Longrightarrow> sep \<notin> set x"
proof (induction s arbitrary: x)
  case Nil
  then show ?case by simp
next
  case (Cons c cs)
  then show ?case
    by (cases "split_char sep cs") (auto split: if_splits)
qed

lemma split_char_append:
  "sep \<notin> set x \<Longrightarrow> split_char sep (x @ sep # s) = x # split_char sep s"
  by (induction x) auto

lemma split_join:
  "xs \<noteq> [] \<Longrightarrow> (\<And>x. x \<in> set xs \<Longrightarrow> sep \<notin> set x) \<Longrightarrow> split_char sep (join [sep] xs) = xs"
proof (induction "[sep]" xs rule: join.induct)
  case 1
  then show ?case by simp
next
  case (2 x)
  then show ?case by (simp add: split_char_no_sep)
next
  case (3 x y ys)
  then show ?case by (simp add: split_char_append)
qed

lemma digit_char_not_newline: "digit_char d \<noteq> ch CHR 0x0A"
  by (simp add: digit_char_def)

lemma str_nat_no_newline: "ch CHR 0x0A \<notin> set (str_nat n)"
proof (induction n rule: str_nat.induct)
  case (1 n)
  show ?case
  proof (cases "n < 10")
    case True
    then show ?thesis
      using digit_char_not_newline [of n] by (subst str_nat.simps) auto
  next
    case False
    with 1 show ?thesis
      using digit_char_not_newline [of "n mod 10"] by (subst str_nat.simps) auto
  qed
qed

lemma length_enumerate_from: "length (enumerate_from k xs) = length xs"
  by (induction xs arbitrary: k) auto

lemma nth_enumerate_from: "i < length xs \<Longrightarrow> enumerate_from k xs ! i = (k + i, xs ! i)"
proof (induction xs arbitrary: k i)
  case Nil
  then show ?case by simp
next
  case (Cons x xs)
  then show ?case by (cases i) auto
qed

lemma snd_enumerate_from: "p \<in> set (enumerate_from k xs) \<Longrightarrow> snd p \<in> set xs"
  by (induction xs arbitrary: k) auto

lemma numbered_lines_no_newline:
  assumes "\<And>l. l \<in> set ls \<Longrightarrow> ch CHR 0x0A \<notin> set l" and "x \<in> set (numbered_lines ls)"
  shows "ch CHR 0x0A \<notin> set x"
proof -
  from assms(2) obtain i l where p: "(i, l) \<in> set (enumerate_from 1 ls)"
    and x: "x = str_nat i @ ascii '': '' @ l"
    by (auto simp: numbered_lines_def)
  from p have "l \<in> set ls" using snd_enumerate_from by fastforce
  with assms(1) x str_nat_no_newline [of i] show ?thesis by (simp add: ascii_def)
qed

lemma split_numbered_block:
  "split_char (ch CHR 0x0A) (numbered_block content) = numbered_lines (content_lines content)"
proof -
  have ne: "numbered_lines (content_lines content) \<noteq> []"
  proof -
    have "length (numbered_lines (content_lines content)) = length (content_lines content)"
      by (simp add: numbered_lines_def length_enumerate_from)
    moreover have "content_lines content \<noteq> []"
      by (simp add: content_lines_def split_char_not_Nil)
    ultimately show ?thesis by auto
  qed
  have "\<And>x. x \<in> set (numbered_lines (content_lines content)) \<Longrightarrow> ch CHR 0x0A \<notin> set x"
    by (rule numbered_lines_no_newline [of "content_lines content"])
      (auto simp: content_lines_def dest: split_char_lines)
  with ne show ?thesis unfolding numbered_block_def by (rule split_join)
qed

lemma emit_contents_sections:
  "resolvable L recs \<Longrightarrow>
   emit_contents L recs res = Inr (res @ concat (map (record_section L) recs))"
proof (induction recs arbitrary: res)
  case Nil
  then show ?case by simp
next
  case (Cons r rest)
  obtain filename anchor_id file_path f rel_path
    where r: "r = (filename, (anchor_id, (file_path, f), rel_path))"
    by (metis prod.exhaust)
  from Cons.prems r obtain language where l: "determine_file_language L file_path = Some language"
    and t: "resolvable L rest"
    by (auto simp: resolvable_def)
  show ?case
    by (cases "read_text f") (simp_all add: r l record_section_def Cons.IH [OF t])
qed

text \<open>
  C5: the loop over the recorded files appends, for every record in turn, the section of that
  record; for a file that can be read the section is the three headings, the fence, one
  block and the closing lines; the block, split at newlines, has as many lines as the text
  of the file has after trimming the whitespace at its end, and its \<open>i\<close>-th line is the
  number \<open>i\<close> (counted from 1), a colon, a blank, and the \<open>i\<close>-th line of the file. The
  document ends with the sections of all the files the builder recorded.
\<close>

theorem numbered_block_lines:
  "(resolvable L recs \<longrightarrow>
      emit_contents L recs res = Inr (res @ concat (map (record_section L) recs))) \<and>
   (build_tree L cfg directory_path directory_path root []
        \<lparr>result = preamble directory_path, file_contents = []\<rparr> = Inr st \<and>
    include_file_contents cfg \<and> file_contents st \<noteq> [] \<longrightarrow>
      document_lines L cfg directory_path root =
        Inr (result st @
             [[ch CHR 0x0A] @ ascii ''---'' @ [ch CHR 0x0A], ascii ''# File Contents'' @ [ch CHR 0x0A]] @
             concat (map (record_section L) (file_contents st)))) \<and>
   (determine_file_language L file_path = Some language \<and> read_text f = Inr content \<longrightarrow>
      record_section L (filename, (anchor_id, (file_path, f), rel_path)) =
        [ascii ''## '' @ anchor_id, ascii ''file: '' @ rel_path,
         ascii ''Here is contents of '' @ rel_path @ ascii '' with line numbers:'',
         ascii ''```'' @ language, numbered_block content, ascii ''```'',
         ascii ''---'' @ [ch CHR 0x0A]]) \<and>
   length (split_char (ch CHR 0x0A) (numbered_block content)) = length (content_lines content) \<and>
   (\<forall>i < length (content_lines content).
      split_char (ch CHR 0x0A) (numbered_block content) ! i =
        str_nat (i + 1) @ ascii '': '' @ content_lines content ! i)"
proof (intro conjI impI)
  assume "resolvable L recs"
  then show "emit_contents L recs res = Inr (res @ concat (map (record_section L) recs))"
    by (rule emit_contents_sections)
next
  assume a: "build_tree L cfg directory_path directory_path root []
        \<lparr>result = preamble directory_path, file_contents = []\<rparr> = Inr st \<and>
    include_file_contents cfg \<and> file_contents st \<noteq> []"
  then have b: "build_tree L cfg directory_path directory_path root []
        \<lparr>result = preamble directory_path, file_contents = []\<rparr> = Inr st"
    by simp
  have "resolvable L (file_contents st)"
    using build_tree_inv [OF resolvable_inv _ b] by (simp add: resolvable_def)
  from emit_contents_sections [OF this] a
  show "document_lines L cfg directory_path root =
        Inr (result st @
             [[ch CHR 0x0A] @ ascii ''---'' @ [ch CHR 0x0A], ascii ''# File Contents'' @ [ch CHR 0x0A]] @
             concat (map (record_section L) (file_contents st)))"
    by (simp add: document_lines_def)
next
  assume "determine_file_language L file_path = Some language \<and> read_text f = Inr content"
  then show "record_section L (filename, (anchor_id, (file_path, f), rel_path)) =
        [ascii ''## '' @ anchor_id, ascii ''file: '' @ rel_path,
         ascii ''Here is contents of '' @ rel_path @ ascii '' with line numbers:'',
         ascii ''```'' @ language, numbered_block content, ascii ''```'',
         ascii ''---'' @ [ch CHR 0x0A]]"
    by (simp add: record_section_def)
next
  show "length (split_char (ch CHR 0x0A) (numbered_block content)) = length (content_lines content)"
    using split_numbered_block [of content]
    by (simp add: numbered_lines_def length_enumerate_from)
next
  show "\<forall>i < length (content_lines content).
      split_char (ch CHR 0x0A) (numbered_block content) ! i =
        str_nat (i + 1) @ ascii '': '' @ content_lines content ! i"
    using split_numbered_block [of content]
    by (simp add: numbered_lines_def length_enumerate_from nth_enumerate_from)
qed

text \<open>
  On the small repository the document ends with the sections of its two recorded files,
  the first unreadable and the second readable. A text of three lines, \<open>a\<close>, \<open>b\<close> and a
  no-break space (U+00A0), each ended by a newline, has two numbered lines: the no-break
  space is whitespace and is trimmed with the newlines around it.
\<close>

theorem numbered_block_lines_witness:
  "emit_contents example_lib (file_contents example_state) [] =
     Inr [ascii ''## a-b-py'', ascii ''file: a/b.py'',
          ascii ''Here is contents of a/b.py with line numbers:'',
          ascii ''*Error reading file: gone*'' @ [ch CHR 0x0A],
          ascii ''## readme-md'', ascii ''file: README.md'',
          ascii ''Here is contents of README.md with line numbers:'',
          ascii ''```markdown'', ascii ''1: hi'', ascii ''```'', ascii ''---'' @ [ch CHR 0x0A]] \<and>
   document_lines example_lib example_cfg [ascii ''repo''] example_root =
     Inr (preamble [ascii ''repo''] @ result example_state @
          [[ch CHR 0x0A] @ ascii ''---'' @ [ch CHR 0x0A], ascii ''# File Contents'' @ [ch CHR 0x0A]] @
          [ascii ''## a-b-py'', ascii ''file: a/b.py'',
           ascii ''Here is contents of a/b.py with line numbers:'',
           ascii ''*Error reading file: gone*'' @ [ch CHR 0x0A],
           ascii ''## readme-md'', ascii ''file: README.md'',
           ascii ''Here is contents of README.md with line numbers:'',
           ascii ''```markdown'', ascii ''1: hi'', ascii ''```'', ascii ''---'' @ [ch CHR 0x0A]]) \<and>
   record_section example_lib
       (ascii ''n.md//n.md'', ascii ''n-md'',
        ([ascii ''repo'', ascii ''n.md''],
         File (ascii ''n.md'') (Inr ([97, 10, 98, 10, 0xA0, 10]))), ascii ''n.md'') =
     [ascii ''## n-md'', ascii ''file: n.md'',
      ascii ''Here is contents of n.md with line numbers:'',
      ascii ''```markdown'', numbered_block [97, 10, 98, 10, 0xA0, 10], ascii ''```'',
      ascii ''---'' @ [ch CHR 0x0A]] \<and>
   content_lines [97, 10, 98, 10, 0xA0, 10] = [ascii ''a'', ascii ''b''] \<and>
   length (split_char (ch CHR 0x0A) (numbered_block [97, 10, 98, 10, 0xA0, 10])) = 2 \<and>
   split_char (ch CHR 0x0A) (numbered_block [97, 10, 98, 10, 0xA0, 10]) ! 0 = ascii ''1: a'' \<and>
   split_char (ch CHR 0x0A) (numbered_block [97, 10, 98, 10, 0xA0, 10]) ! 1 = ascii ''2: b''"
proof -
  let ?c = "[97, 10, 98, 10, 0xA0, 10] :: pystr"
  let ?st = "\<lparr>result = preamble [ascii ''repo''] @ result example_state,
      file_contents = file_contents example_state\<rparr>"
  let ?secs = "[ascii ''## a-b-py'', ascii ''file: a/b.py'',
          ascii ''Here is contents of a/b.py with line numbers:'',
          ascii ''*Error reading file: gone*'' @ [ch CHR 0x0A],
          ascii ''## readme-md'', ascii ''file: README.md'',
          ascii ''Here is contents of README.md with line numbers:'',
          ascii ''```markdown'', ascii ''1: hi'', ascii ''```'', ascii ''---'' @ [ch CHR 0x0A]]"
  have r: "resolvable example_lib (file_contents example_state)"
    by code_simp
  have s: "concat (map (record_section example_lib) (file_contents example_state)) = ?secs"
    by code_simp
  have w: "build_tree example_lib example_cfg [ascii ''repo''] [ascii ''repo''] example_root []
      \<lparr>result = preamble [ascii ''repo''], file_contents = []\<rparr> = Inr ?st"
    by code_simp
  have i: "include_file_contents example_cfg" "file_contents ?st \<noteq> []"
    by code_simp+
  have d: "determine_file_language example_lib [ascii ''repo'', ascii ''n.md''] =
      Some (ascii ''markdown'')"
    by code_simp
  have c: "content_lines ?c = [ascii ''a'', ascii ''b'']"
    by code_simp
  have n: "str_nat (Suc 0) = ascii ''1''" "str_nat (Suc (Suc 0)) = ascii ''2''"
    by code_simp+
  note t = numbered_block_lines [where L = example_lib and recs = "file_contents example_state"
      and res = "[]" and cfg = example_cfg and directory_path = "[ascii ''repo'']"
      and root = example_root and st = ?st
      and file_path = "[ascii ''repo'', ascii ''n.md'']" and language = "ascii ''markdown''"
      and f = "File (ascii ''n.md'') (Inr ?c)" and content = ?c
      and filename = "ascii ''n.md//n.md''" and anchor_id = "ascii ''n-md''"
      and rel_path = "ascii ''n.md''"]
  from t r s have e: "emit_contents example_lib (file_contents example_state) [] = Inr ?secs"
    by simp
  from t w i s have g: "document_lines example_lib example_cfg [ascii ''repo''] example_root =
     Inr (preamble [ascii ''repo''] @ result example_state @
          [[ch CHR 0x0A] @ ascii ''---'' @ [ch CHR 0x0A], ascii ''# File Contents'' @ [ch CHR 0x0A]] @
          ?secs)"
    by simp
  from t d have h: "record_section example_lib
       (ascii ''n.md//n.md'', ascii ''n-md'',
        ([ascii ''repo'', ascii ''n.md''], File (ascii ''n.md'') (Inr ?c)), ascii ''n.md'') =
     [ascii ''## n-md'', ascii ''file: n.md'',
      ascii ''Here is contents of n.md with line numbers:'',
      ascii ''```markdown'', numbered_block ?c, ascii ''```'',
      ascii ''---'' @ [ch CHR 0x0A]]"
    by (simp add: ascii_def)
  from t have l: "length (split_char (ch CHR 0x0A) (numbered_block ?c)) = 2"
    by (simp only: c) simp
  from t have a: "\<And>i. i < 2 \<Longrightarrow>
      split_char (ch CHR 0x0A) (numbered_block ?c) ! i =
        str_nat (i + 1) @ ascii '': '' @ [ascii ''a'', ascii ''b''] ! i"
    by (simp only: c) simp
  have "split_char (ch CHR 0x0A) (numbered_block ?c) ! 0 = ascii ''1: a''"
    "split_char (ch CHR 0x0A) (numbered_block ?c) ! 1 = ascii ''2: b''"
    using a [of 0] a [of 1] n by (simp_all add: ascii_def)
  with e g h c l show ?thesis by simp
qed

section \<open>Recorded files always resolve\<close>

text \<open>
  C6: every file the tree builder records has a language, so the loop over the recorded
  files never reaches the failing assertion: it returns, and neither the lines of the
  document nor the whole call end in \<open>AssertionError\<close>.
\<close>

theorem recorded_files_resolve:
  "(build_tree L cfg directory_path directory d prefix \<lparr>result = res, file_contents = []\<rparr> = Inr st \<longrightarrow>
      resolvable L (file_contents st) \<and>
      (\<exists>out. emit_contents L (file_contents st) res' = Inr out)) \<and>
   document_lines L cfg directory_path root \<noteq> Inl AssertionError \<and>
   generate_repo_structure_to_markdown L can_open directory_path root output_file cfg
     \<noteq> Inl AssertionError"
proof -
  have a: "resolvable L (file_contents st)"
    if "build_tree L cfg directory_path directory d prefix \<lparr>result = res, file_contents = []\<rparr> = Inr st"
    for directory d prefix res st
    using build_tree_inv [OF resolvable_inv _ that] by (simp add: resolvable_def)
  have b: "document_lines L cfg directory_path root \<noteq> Inl AssertionError"
  proof (cases "build_tree L cfg directory_path directory_path root []
      \<lparr>result = preamble directory_path, file_contents = []\<rparr>")
    case (Inl e)
    then have "e \<noteq> AssertionError"
      by (auto dest: build_tree_error)
    with Inl show ?thesis by (simp add: document_lines_def)
  next
    case (Inr st)
    from emit_contents_resolvable [OF a [OF Inr]] show ?thesis
      by (auto simp: document_lines_def Inr) (metis Inl_Inr_False)
  qed
  then have "generate_repo_structure_to_markdown L can_open directory_path root output_file cfg
     \<noteq> Inl AssertionError"
    by (auto simp: generate_repo_structure_to_markdown_def Let_def split: sum.splits option.splits)
  with a b emit_contents_resolvable show ?thesis by blast
qed

theorem recorded_files_resolve_witness:
  "resolvable example_lib (file_contents example_state) \<and>
   (\<exists>out. emit_contents example_lib (file_contents example_state) [] = Inr out)"
  using recorded_files_resolve [of example_lib example_cfg "[ascii ''repo'']" "[ascii ''repo'']"
      example_root "[]" "[]" example_state "[]" example_root "\<lambda>_. True" None]
  by (simp add: example_walk)

section \<open>Errors that do not stop the run\<close>

text \<open>
  A directory that may be listed but not searched is another matter: classifying its
  entries raises outside the \<open>try\<close>, and the error ends the run.
\<close>

lemma locked_walk:
  "build_tree example_lib example_cfg [ascii ''repo''] [ascii ''repo''] locked_root []
     \<lparr>result = [], file_contents = []\<rparr> = Inl PermissionError"
  by code_simp



text \<open>
  C8: when reading a recorded file raises, the loop appends the heading lines and the error
  notice, no fenced block, and goes on with the remaining records; with the remaining
  records resolvable the loop returns.
\<close>

theorem read_error_notice:
  assumes "determine_file_language L file_path = Some language" and "read_text f = Inl e"
  shows "emit_contents L ((filename, (anchor_id, (file_path, f), rel_path)) # rest) res =
      emit_contents L rest
        (res @ [ascii ''## '' @ anchor_id, ascii ''file: '' @ rel_path,
           ascii ''Here is contents of '' @ rel_path @ ascii '' with line numbers:'',
           ascii ''*Error reading file: '' @ e @ ascii ''*'' @ [ch CHR 0x0A]]) \<and>
    (resolvable L rest \<longrightarrow>
       (\<exists>out. emit_contents L ((filename, (anchor_id, (file_path, f), rel_path)) # rest) res
          = Inr out))"
proof -
  have "resolvable L ((filename, (anchor_id, (file_path, f), rel_path)) # rest)" if "resolvable L rest"
    using that assms(1) by (simp add: resolvable_def)
  then show ?thesis
    using assms emit_contents_resolvable by simp
qed

theorem read_error_notice_witness:
  "determine_file_language example_lib [ascii ''repo'', ascii ''a'', ascii ''b.py''] =
     Some (ascii ''python'') \<and>
   resolvable example_lib [] \<and>
   emit_contents example_lib
     [(ascii ''a/b.py//b.py'', ascii ''a-b-py'',
       ([ascii ''repo'', ascii ''a'', ascii ''b.py''], File (ascii ''b.py'') (Inl (ascii ''gone''))),
       ascii ''a/b.py'')] [] =
     Inr [ascii ''## a-b-py'', ascii ''file: a/b.py'',
          ascii ''Here is contents of a/b.py with line numbers:'',
          ascii ''*Error reading file: gone*\<newline>'']"
proof -
  have l: "determine_file_language example_lib [ascii ''repo'', ascii ''a'', ascii ''b.py''] =
      Some (ascii ''python'')"
    by code_simp
  have r: "read_text (File (ascii ''b.py'') (Inl (ascii ''gone''))) = Inl (ascii ''gone'')"
    by simp
  from read_error_notice [OF l r, of "ascii ''a/b.py//b.py''" "ascii ''a-b-py''"
      "ascii ''a/b.py''" "[]" "[]"] l
  show ?thesis by (simp add: resolvable_def ascii_def)
qed

section \<open>The value returned\<close>

text \<open>
  C10: whenever the lines of the document are produced, the call without an output file
  returns the joined document, and the call with an output file that can be opened returns
  the same string and writes it to the file; and whatever the output file, a call that
  returns gives back the joined document, never \<open>None\<close>.
\<close>

theorem returns_markdown_always:
  "(document_lines L cfg directory_path root = Inr res \<longrightarrow>
      generate_repo_structure_to_markdown L can_open directory_path root None cfg =
        Inr \<lparr>returned = Some (join [ch CHR 0x0A] res), printed = [join [ch CHR 0x0A] res],
             written = []\<rparr> \<and>
      (file \<noteq> [] \<and> can_open file \<longrightarrow>
         generate_repo_structure_to_markdown L can_open directory_path root (Some file) cfg =
           Inr \<lparr>returned = Some (join [ch CHR 0x0A] res),
                printed = [join [ch CHR 0x0A] res, ascii ''Repository structure saved to '' @ file],
                written = [(file, join [ch CHR 0x0A] res)]\<rparr>)) \<and>
   (generate_repo_structure_to_markdown L can_open directory_path root output_file cfg = Inr out \<longrightarrow>
      (\<exists>res. document_lines L cfg directory_path root = Inr res \<and>
         returned out = Some (join [ch CHR 0x0A] res)))"
  by (auto simp: generate_repo_structure_to_markdown_def Let_def
      split: sum.splits option.splits if_splits)

theorem returns_markdown_always_witness:
  "\<exists>res. document_lines example_lib example_cfg [ascii ''repo''] example_root = Inr res \<and>
     generate_repo_structure_to_markdown example_lib (\<lambda>f. True) [ascii ''repo''] example_root None example_cfg =
       Inr \<lparr>returned = Some (join [ch CHR 0x0A] res), printed = [join [ch CHR 0x0A] res],
            written = []\<rparr> \<and>
     generate_repo_structure_to_markdown example_lib (\<lambda>f. True) [ascii ''repo''] example_root (Some (ascii ''out.md''))
         example_cfg =
       Inr \<lparr>returned = Some (join [ch CHR 0x0A] res),
            printed = [join [ch CHR 0x0A] res, ascii ''Repository structure saved to out.md''],
            written = [(ascii ''out.md'', join [ch CHR 0x0A] res)]\<rparr>"
proof -
  have "walkable example_root"
    by (simp add: example_root_def)
  from document_lines_walkable [OF this] obtain res where
    d: "document_lines example_lib example_cfg [ascii ''repo''] example_root = Inr res"
    by blast
  from returns_markdown_always [of example_lib example_cfg "[ascii ''repo'']" example_root res
      "\<lambda>f. True" "ascii ''out.md''" None] d
  show ?thesis by (simp add: ascii_def)
qed

end
